theory Spec2Isabelle
  imports Complex_Main
begin

section \<open>Python values and library calls used by the controller\<close>

text \<open>
  The program is \<^verbatim>\<open>computer.py\<close> (class \<^verbatim>\<open>ComputerController\<close>) and
  \<^verbatim>\<open>collect.py\<close> (the polling loop \<^verbatim>\<open>main\<close>). Every method becomes a function
  that takes the state of the system and returns its result together with the new state.
  What the operating system and the libraries decide (the clock, whether a system call
  raises, what the screen grabber delivers) is an explicit argument of the function that
  asks for it.

  Clock readings and the interval (Python \<^verbatim>\<open>float\<close> values the program subtracts,
  multiplies and compares) are modelled as reals, Python \<^verbatim>\<open>int\<close> as \<open>int\<close>. Pointer
  coordinates, which the program only formats, are the numbers of the subsection on
  numbers below. A Python \<^verbatim>\<open>str\<close> is a \<open>string\<close> whose characters are code points
  below 256.
\<close>

subsection \<open>Exceptions\<close>

datatype exn =
    OSError string
  | TypeError string
  | IndexError string
  | CaptureError string

text \<open>\<^verbatim>\<open>str(e)\<close>, as \<^verbatim>\<open>f"{e}"\<close> prints it.\<close>

fun exn_message :: "exn \<Rightarrow> string" where
  "exn_message (OSError m) = m"
| "exn_message (TypeError m) = m"
| "exn_message (IndexError m) = m"
| "exn_message (CaptureError m) = m"

subsection \<open>Formatting integers\<close>

text \<open>\<^verbatim>\<open>str(n)\<close> for a Python int: decimal digits, a leading minus sign for negatives.\<close>

definition digit_char :: "nat \<Rightarrow> char" where
  "digit_char d = char_of (48 + d)"

fun digits10 :: "nat \<Rightarrow> string" where
  "digits10 n = (if n < 10 then [digit_char n] else digits10 (n div 10) @ [digit_char (n mod 10)])"

declare digits10.simps [simp del]

definition str_int :: "int \<Rightarrow> string" where
  "str_int i = (if i < 0 then CHR ''-'' # digits10 (nat (- i)) else digits10 (nat i))"

text \<open>Zero padding to a minimal width, as \<^verbatim>\<open>strftime\<close> pads its numeric fields.\<close>

definition zero_pad :: "nat \<Rightarrow> nat \<Rightarrow> string" where
  "zero_pad w n = replicate (w - length (digits10 n)) CHR ''0'' @ digits10 n"

text \<open>
  \<^verbatim>\<open>int(r)\<close> for a float: truncation towards zero.
\<close>

definition py_int :: "real \<Rightarrow> int" where
  "py_int r = (if 0 \<le> r then \<lfloor>r\<rfloor> else \<lceil>r\<rceil>)"

subsection \<open>Numbers\<close>

text \<open>
  Pointer coordinates are Python numbers: floats on macOS, the platform the program runs
  on (it imports \<^verbatim>\<open>mss.darwin\<close>, and \<^verbatim>\<open>pynput\<close> reads the position from a Quartz
  event), ints where the docstring of \<^verbatim>\<open>_on_click\<close> applies. A pointer position is
  finite. The program never computes with a coordinate; it only formats it in an
  f-string. A finite float is therefore represented by what \<^verbatim>\<open>repr\<close> derives from it
  before it lays the text out: the sign, the shortest string of decimal digits that
  identifies the float, and the position of the decimal point relative to those digits
  (\<^verbatim>\<open>digits\<close> and \<^verbatim>\<open>decpt\<close> of the conversion in mode 0). So \<^verbatim>\<open>360.5\<close> is
  \<open>PyFloat False [3, 6, 0, 5] 3\<close> and \<^verbatim>\<open>-0.0625\<close> is \<open>PyFloat True [6, 2, 5] (- 1)\<close>.
  Two floats are equal exactly when the three components agree, since
  \<^verbatim>\<open>float(repr(x)) == x\<close>.
\<close>

datatype number = PyInt int | PyFloat bool "nat list" int

text \<open>
  The digit strings \<^verbatim>\<open>repr\<close> can derive: at most 17 digits, no leading and no
  trailing zero, except the single digit of zero, whose decimal point position is 1.
\<close>

definition shortest_digits :: "nat list \<Rightarrow> bool" where
  "shortest_digits ds =
     (ds \<noteq> [] \<and> length ds \<le> 17 \<and> list_all (\<lambda>d. d < 10) ds
      \<and> (ds = [0] \<or> (hd ds \<noteq> 0 \<and> last ds \<noteq> 0)))"

fun finite_number :: "number \<Rightarrow> bool" where
  "finite_number (PyInt i) = True"
| "finite_number (PyFloat neg ds p) = (shortest_digits ds \<and> (if ds = [0] then p = 1 else True))"

definition digit_string :: "nat list \<Rightarrow> string" where
  "digit_string ds = map digit_char ds"

text \<open>
  The exponent as \<^verbatim>\<open>"%+.02d"\<close> prints it: a sign and at least two digits.
\<close>

definition exponent_text :: "int \<Rightarrow> string" where
  "exponent_text e = (if e < 0 then CHR ''-'' else CHR ''+'') # zero_pad 2 (nat \<bar>e\<bar>)"

text \<open>
  \<^verbatim>\<open>repr\<close> of a float (\<^verbatim>\<open>format_float_short\<close> with format code \<^verbatim>\<open>'r'\<close>), without
  the sign: exponent notation when the decimal point position is at most -4 or above 16;
  otherwise positional notation, with zeros filled in before or after the digits and
  \<^verbatim>\<open>.0\<close> appended to a value without fractional digits.
\<close>

definition float_body :: "nat list \<Rightarrow> int \<Rightarrow> string" where
  "float_body ds p =
     (if p \<le> - 4 \<or> 16 < p then
        digit_char (hd ds) # (if tl ds = [] then [] else CHR ''.'' # digit_string (tl ds))
          @ CHR ''e'' # exponent_text (p - 1)
      else if p \<le> 0 then
        ''0.'' @ replicate (nat (- p)) CHR ''0'' @ digit_string ds
      else if int (length ds) \<le> p then
        digit_string ds @ replicate (nat p - length ds) CHR ''0'' @ ''.0''
      else digit_string (take (nat p) ds) @ CHR ''.'' # digit_string (drop (nat p) ds))"

definition float_repr :: "bool \<Rightarrow> nat list \<Rightarrow> int \<Rightarrow> string" where
  "float_repr neg ds p = (if neg then CHR ''-'' # float_body ds p else float_body ds p)"

text \<open>
  \<^verbatim>\<open>str(x)\<close>, which is what \<^verbatim>\<open>f"{x}"\<close> inserts.
\<close>

fun str_number :: "number \<Rightarrow> string" where
  "str_number (PyInt i) = str_int i"
| "str_number (PyFloat neg ds p) = float_repr neg ds p"

subsection \<open>Paths\<close>

text \<open>
  \<^verbatim>\<open>os.path.join(a, b)\<close> of \<^verbatim>\<open>posixpath\<close>, for two components: an absolute \<open>b\<close> replaces
  \<open>a\<close>; otherwise \<open>b\<close> is appended, after a slash unless \<open>a\<close> is empty or ends in one.
\<close>

definition path_join :: "string \<Rightarrow> string \<Rightarrow> string" where
  "path_join a b =
     (if b \<noteq> [] \<and> hd b = CHR ''/'' then b
      else if a = [] \<or> last a = CHR ''/'' then a @ b
      else a @ ''/'' @ b)"

subsection \<open>Timestamps\<close>

record datetime =
  year :: nat
  month :: nat
  day :: nat
  hour :: nat
  minute :: nat
  second :: nat
  microsecond :: nat

text \<open>\<^verbatim>\<open>dt.strftime("%Y%m%d_%H%M%S_%f")\<close>.\<close>

definition strftime_stamp :: "datetime \<Rightarrow> string" where
  "strftime_stamp dt =
     zero_pad 4 (year dt) @ zero_pad 2 (month dt) @ zero_pad 2 (day dt) @ ''_'' @
     zero_pad 2 (hour dt) @ zero_pad 2 (minute dt) @ zero_pad 2 (second dt) @ ''_'' @
     zero_pad 6 (microsecond dt)"

text \<open>The slice \<^verbatim>\<open>s[:-3]\<close>.\<close>

definition drop_last3 :: "string \<Rightarrow> string" where
  "drop_last3 s = take (length s - 3) s"

subsection \<open>JSON documents and \<^verbatim>\<open>json.dump(obj, f, indent=2)\<close>\<close>

text \<open>
  The values the program serialises are dictionaries, lists and strings. A dictionary
  keeps its insertion order, so it is an association list.
\<close>

datatype json =
    JString string
  | JArray "json list"
  | JObject "(string \<times> json) list"

definition hex_digit :: "nat \<Rightarrow> char" where
  "hex_digit d = (if d < 10 then char_of (48 + d) else char_of (87 + d))"

text \<open>
  \<^verbatim>\<open>json.encoder.py_encode_basestring_ascii\<close>: the quote, the backslash and the five
  short control escapes; every other character outside the printable ASCII range
  \<^verbatim>\<open>' '..'~'\<close> becomes \<^verbatim>\<open>\uXXXX\<close> in lower-case hexadecimal.
\<close>

definition escape_char :: "char \<Rightarrow> string" where
  "escape_char c =
     (if c = CHR 0x22 then [CHR 0x5C, CHR 0x22]
      else if c = CHR 0x5C then [CHR 0x5C, CHR 0x5C]
      else if c = CHR 0x08 then [CHR 0x5C, CHR ''b'']
      else if c = CHR 0x0C then [CHR 0x5C, CHR ''f'']
      else if c = CHR 0x0A then [CHR 0x5C, CHR ''n'']
      else if c = CHR 0x0D then [CHR 0x5C, CHR ''r'']
      else if c = CHR 0x09 then [CHR 0x5C, CHR ''t'']
      else if 32 \<le> (of_char c :: nat) \<and> (of_char c :: nat) \<le> 126 then [c]
      else [CHR 0x5C, CHR ''u'', CHR ''0'', CHR ''0'',
            hex_digit ((of_char c :: nat) div 16), hex_digit ((of_char c :: nat) mod 16)])"

definition encode_basestring_ascii :: "string \<Rightarrow> string" where
  "encode_basestring_ascii s = [CHR 0x22] @ concat (map escape_char s) @ [CHR 0x22]"

text \<open>The line break before an item at nesting level \<open>lvl\<close>, with \<^verbatim>\<open>indent=2\<close>.\<close>

definition newline_indent :: "nat \<Rightarrow> string" where
  "newline_indent lvl = CHR 0x0A # replicate (2 * lvl) CHR '' ''"

text \<open>\<^verbatim>\<open>sep.join(parts)\<close>.\<close>

fun join_with :: "string \<Rightarrow> string list \<Rightarrow> string" where
  "join_with sep [] = []"
| "join_with sep [p] = p"
| "join_with sep (p # q # ps) = p @ sep @ join_with sep (q # ps)"

text \<open>
  The pure-Python encoder \<^verbatim>\<open>_make_iterencode\<close>, which \<^verbatim>\<open>json.dump\<close> uses when an indent
  is given: item separator \<^verbatim>\<open>","\<close> followed by the line break, key separator \<^verbatim>\<open>": "\<close>,
  empty containers written as \<^verbatim>\<open>[]\<close> and \<^verbatim>\<open>{}\<close>.
\<close>

fun json_encode :: "nat \<Rightarrow> json \<Rightarrow> string" where
  "json_encode lvl (JString s) = encode_basestring_ascii s"
| "json_encode lvl (JArray vs) =
     (if vs = [] then ''[]''
      else ''['' @ newline_indent (Suc lvl) @
           join_with ('','' @ newline_indent (Suc lvl)) (map (json_encode (Suc lvl)) vs) @
           newline_indent lvl @ '']'')"
| "json_encode lvl (JObject kvs) =
     (if kvs = [] then ''{}''
      else ''{'' @ newline_indent (Suc lvl) @
           join_with ('','' @ newline_indent (Suc lvl))
             (map (\<lambda>kv. encode_basestring_ascii (fst kv) @ '': '' @ json_encode (Suc lvl) (snd kv)) kvs) @
           newline_indent lvl @ ''}'')"

definition json_dumps :: "json \<Rightarrow> string" where
  "json_dumps v = json_encode 0 v"

section \<open>The state of the system\<close>

record controller =
  clicked :: bool
  compression_level :: nat
  output_dir :: string
  screenshot_dir :: string
  screenshot_interval :: real
  last_screenshot_time :: real
  monitor_id :: int

text \<open>
  The controller object, the files on disk (path to contents) and the lines printed to
  standard output.
\<close>

record system =
  self :: controller
  files :: "string \<rightharpoonup> string"
  stdout :: "string list"

definition print_line :: "string \<Rightarrow> system \<Rightarrow> system" where
  "print_line l s = s\<lparr>stdout := stdout s @ [l]\<rparr>"

text \<open>
  \<^verbatim>\<open>ComputerController.__init__\<close>: the fields it assigns. The two \<^verbatim>\<open>os.makedirs\<close>
  calls create directories, which the flat file map does not record.
\<close>

definition init_controller :: "string \<Rightarrow> string \<Rightarrow> real \<Rightarrow> int \<Rightarrow> controller" where
  "init_controller out_dir shot_dir interval mon =
     \<lparr>clicked = False, compression_level = 9, output_dir = out_dir,
      screenshot_dir = shot_dir, screenshot_interval = interval,
      last_screenshot_time = 0, monitor_id = mon\<rparr>"

subsection \<open>System calls\<close>

definition os_path_exists :: "string \<Rightarrow> system \<Rightarrow> bool" where
  "os_path_exists p s = (files s p \<noteq> None)"

text \<open>
  \<^verbatim>\<open>os.rename(src, dst)\<close>. The first argument is the failure the operating system
  reports, if any; a missing source always fails. A successful rename moves the contents
  and replaces whatever was at the destination.
\<close>

definition os_rename :: "string option \<Rightarrow> string \<Rightarrow> string \<Rightarrow> system \<Rightarrow> exn option \<times> system" where
  "os_rename failure src dst s =
     (case failure of
        Some msg \<Rightarrow> (Some (OSError msg), s)
      | None \<Rightarrow>
          (case files s src of
             None \<Rightarrow> (Some (OSError ''No such file or directory''), s)
           | Some contents \<Rightarrow> (None, s\<lparr>files := ((files s)(src := None))(dst \<mapsto> contents)\<rparr>)))"

text \<open>
  \<^verbatim>\<open>with open(path, "w") as f: f.write(text)\<close>: the file is created or truncated and
  then holds the text, unless opening it fails.
\<close>

definition write_file :: "string option \<Rightarrow> string \<Rightarrow> string \<Rightarrow> system \<Rightarrow> exn option \<times> system" where
  "write_file failure p text s =
     (case failure of
        Some msg \<Rightarrow> (Some (OSError msg), s)
      | None \<Rightarrow> (None, s\<lparr>files := (files s)(p \<mapsto> text)\<rparr>))"

section \<open>\<^verbatim>\<open>ComputerController\<close>\<close>

subsection \<open>\<^verbatim>\<open>save_click_data\<close>\<close>

definition prompt_text :: string where
  "prompt_text = ''Where to click? Answer with coordinates only (e.g., 1111.1111,2222.2222)''"

text \<open>The f-string \<^verbatim>\<open>f"{x},{y}"\<close>.\<close>

definition coordinate_text :: "number \<Rightarrow> number \<Rightarrow> string" where
  "coordinate_text x y = str_number x @ '','' @ str_number y"

text \<open>The dictionary \<^verbatim>\<open>example\<close> built in \<^verbatim>\<open>save_click_data\<close>.\<close>

definition example :: "number \<Rightarrow> number \<Rightarrow> string \<Rightarrow> json" where
  "example x y screenshot_path =
     JObject [(''messages'', JArray [
       JObject [(''role'', JString ''user''),
                (''content'', JArray [
                   JObject [(''type'', JString ''text''), (''text'', JString prompt_text)],
                   JObject [(''type'', JString ''image_url''),
                            (''image_url'', JObject [(''url'', JString screenshot_path)])]])],
       JObject [(''role'', JString ''assistant''),
                (''content'', JString (coordinate_text x y))]])]"

text \<open>
  What the environment decides during one call of \<^verbatim>\<open>save_click_data\<close>: the reading of
  \<^verbatim>\<open>time.time()\<close> and whether opening the output file fails.
\<close>

record save_env =
  time_time :: real
  open_failure :: "string option"

definition output_file :: "controller \<Rightarrow> real \<Rightarrow> string" where
  "output_file c t = path_join (output_dir c) (''example_'' @ str_int (py_int (t * 1000)) @ ''.json'')"

text \<open>
  \<^verbatim>\<open>def save_click_data(self, x, y, screenshot_path)\<close>. The parameter \<^verbatim>\<open>screenshot_path\<close>
  has no default value, so a call that passes only \<open>x\<close> and \<open>y\<close> raises \<^verbatim>\<open>TypeError\<close>
  before the body runs; \<open>None\<close> stands for the argument left out.
\<close>

definition missing_argument_message :: string where
  "missing_argument_message =
     ''ComputerController.save_click_data() missing 1 required positional argument: ''
       @ [CHR 0x27] @ ''screenshot_path'' @ [CHR 0x27]"

definition save_click_data ::
    "save_env \<Rightarrow> number \<Rightarrow> number \<Rightarrow> string option \<Rightarrow> system \<Rightarrow> exn option \<times> system" where
  "save_click_data env x y arg s =
     (case arg of
        None \<Rightarrow> (Some (TypeError missing_argument_message), s)
      | Some screenshot_path \<Rightarrow>
          write_file (open_failure env) (output_file (self s) (time_time env))
            (json_dumps (example x y screenshot_path)) s)"

subsection \<open>\<^verbatim>\<open>_on_click\<close>\<close>

text \<open>\<^verbatim>\<open>pynput.mouse.Button\<close> and its \<^verbatim>\<open>name\<close>.\<close>

datatype button = Button_unknown | Button_left | Button_middle | Button_right

fun button_name :: "button \<Rightarrow> string" where
  "button_name Button_unknown = ''unknown''"
| "button_name Button_left = ''left''"
| "button_name Button_middle = ''middle''"
| "button_name Button_right = ''right''"

text \<open>
  What the environment decides during one call of \<^verbatim>\<open>_on_click\<close>: \<^verbatim>\<open>datetime.now()\<close>,
  the failure of \<^verbatim>\<open>os.rename\<close> if any, and the environment of the call of
  \<^verbatim>\<open>save_click_data\<close> in the \<^verbatim>\<open>try\<close> body or \<^verbatim>\<open>else\<close> branch (\<open>first_save\<close>) and of
  the call in the \<^verbatim>\<open>except\<close> handler (\<open>handler_save\<close>).
\<close>

record click_env =
  now :: datetime
  rename_failure :: "string option"
  first_save :: save_env
  handler_save :: save_env

definition new_screenshot_path :: "controller \<Rightarrow> datetime \<Rightarrow> string" where
  "new_screenshot_path c dt =
     path_join (screenshot_dir c) (''screenshot_'' @ drop_last3 (strftime_stamp dt) @ ''.jpg'')"

definition generic_screenshot_path :: "controller \<Rightarrow> string" where
  "generic_screenshot_path c = path_join (screenshot_dir c) ''screenshot.jpg''"

text \<open>The body of the \<^verbatim>\<open>try\<close> statement: the rename, then the record.\<close>

definition on_click_try :: "click_env \<Rightarrow> number \<Rightarrow> number \<Rightarrow> system \<Rightarrow> exn option \<times> system" where
  "on_click_try env x y s =
     (case os_rename (rename_failure env) (generic_screenshot_path (self s))
             (new_screenshot_path (self s) (now env)) s of
        (Some e, s') \<Rightarrow> (Some e, s')
      | (None, s') \<Rightarrow>
          save_click_data (first_save env) x y (Some (new_screenshot_path (self s) (now env))) s')"

text \<open>The handler \<^verbatim>\<open>except OSError as e\<close>.\<close>

definition on_click_except :: "click_env \<Rightarrow> number \<Rightarrow> number \<Rightarrow> exn \<Rightarrow> system \<Rightarrow> exn option \<times> system" where
  "on_click_except env x y e s =
     save_click_data (handler_save env) x y (Some (generic_screenshot_path (self s)))
       (print_line (''Error renaming screenshot: '' @ exn_message e) s)"

definition on_click ::
    "click_env \<Rightarrow> number \<Rightarrow> number \<Rightarrow> button \<Rightarrow> bool \<Rightarrow> system \<Rightarrow> exn option \<times> system" where
  "on_click env x y b pressed s =
     (if button_name b = ''left'' \<and> pressed then
        let s1 = s\<lparr>self := (self s)\<lparr>clicked := True\<rparr>\<rparr> in
        if os_path_exists (generic_screenshot_path (self s1)) s1 then
          (case on_click_try env x y s1 of
             (Some (OSError m), s2) \<Rightarrow> on_click_except env x y (OSError m) s2
           | r \<Rightarrow> r)
        else save_click_data (first_save env) x y None s1
      else (None, s))"

subsection \<open>\<^verbatim>\<open>was_clicked\<close>\<close>

definition was_clicked :: "system \<Rightarrow> bool \<times> system" where
  "was_clicked s =
     (if clicked (self s) then (True, s\<lparr>self := (self s)\<lparr>clicked := False\<rparr>\<rparr>)
      else (False, s))"



subsection \<open>\<^verbatim>\<open>should_take_screenshot\<close> and \<^verbatim>\<open>update_screenshot_time\<close>\<close>

definition should_take_screenshot :: "real \<Rightarrow> system \<Rightarrow> bool \<times> system" where
  "should_take_screenshot current_time s =
     (current_time - last_screenshot_time (self s) \<ge> screenshot_interval (self s), s)"

definition update_screenshot_time :: "real \<Rightarrow> system \<Rightarrow> system" where
  "update_screenshot_time current_time s =
     s\<lparr>self := (self s)\<lparr>last_screenshot_time := current_time\<rparr>\<rparr>"

subsection \<open>\<^verbatim>\<open>take_screenshot\<close>\<close>

text \<open>An entry of \<^verbatim>\<open>sct.monitors\<close> and the raw screenshot \<^verbatim>\<open>sct.grab\<close> returns.\<close>

record monitor =
  mon_left :: int
  mon_top :: int
  mon_width :: int
  mon_height :: int

record sct_img =
  width :: nat
  height :: nat
  rgb :: string

text \<open>
  The subscript \<^verbatim>\<open>xs[i]\<close> on a Python list: an index below zero counts from the end, an
  index outside the list raises \<^verbatim>\<open>IndexError\<close>.
\<close>

definition list_subscript :: "'a list \<Rightarrow> int \<Rightarrow> exn + 'a" where
  "list_subscript xs i =
     (if 0 \<le> i \<and> i < int (length xs) then Inr (xs ! nat i)
      else if i < 0 \<and> - int (length xs) \<le> i then Inr (xs ! nat (int (length xs) + i))
      else Inl (IndexError ''list index out of range''))"

text \<open>
  What the screen-capture and imaging libraries decide during one call of
  \<^verbatim>\<open>take_screenshot\<close>: the monitor list, what \<^verbatim>\<open>sct.grab\<close> does for a monitor, and
  what converting, resizing to the given size and saving as JPEG does (the bytes that end
  up in the file, or the exception).
\<close>

record capture_env =
  monitors :: "monitor list"
  grab :: "monitor \<Rightarrow> exn + sct_img"
  save_jpeg :: "sct_img \<Rightarrow> nat \<Rightarrow> nat \<Rightarrow> exn + string"

text \<open>The body of the \<^verbatim>\<open>try\<close> statement.\<close>

definition take_screenshot_try :: "capture_env \<Rightarrow> system \<Rightarrow> (exn + string) \<times> system" where
  "take_screenshot_try env s =
     (case list_subscript (monitors env) (monitor_id (self s)) of
        Inl e \<Rightarrow> (Inl e, s)
      | Inr mon \<Rightarrow>
          (case grab env mon of
             Inl e \<Rightarrow> (Inl e, s)
           | Inr img \<Rightarrow>
               (let new_width = width img div 2;
                    new_height = height img div 2;
                    screenshot_path = path_join (screenshot_dir (self s)) ''screenshot.jpg''
                in case save_jpeg env img new_width new_height of
                     Inl e \<Rightarrow> (Inl e, s)
                   | Inr bytes \<Rightarrow>
                       (Inr screenshot_path,
                        s\<lparr>files := (files s)(screenshot_path \<mapsto> bytes)\<rparr>))))"

text \<open>
  The whole method: \<^verbatim>\<open>except Exception as e\<close> handles every exception of the body,
  prints the diagnostic and returns \<^verbatim>\<open>None\<close>.
\<close>

definition take_screenshot :: "capture_env \<Rightarrow> system \<Rightarrow> string option \<times> system" where
  "take_screenshot env s =
     (case take_screenshot_try env s of
        (Inr screenshot_path, s') \<Rightarrow> (Some screenshot_path, s')
      | (Inl e, s') \<Rightarrow> (None, print_line (''Error taking screenshot: '' @ exn_message e) s'))"

section \<open>The polling loop of \<^verbatim>\<open>collect.py\<close>\<close>

text \<open>
  What the environment decides during one iteration: the reading of \<^verbatim>\<open>time.time()\<close>,
  the capture subsystem, and the pointer position \<^verbatim>\<open>get_mouse_position\<close> reads.
\<close>

record iteration_env =
  clock :: real
  capture :: capture_env
  mouse_position :: "number \<times> number"

text \<open>The truth value of \<^verbatim>\<open>if screenshot_path:\<close> for a value that is a string or \<^verbatim>\<open>None\<close>.\<close>

definition truthy :: "string option \<Rightarrow> bool" where
  "truthy r = (case r of None \<Rightarrow> False | Some p \<Rightarrow> p \<noteq> [])"

text \<open>One pass through the body of \<^verbatim>\<open>while True\<close>.\<close>

definition main_iteration :: "iteration_env \<Rightarrow> system \<Rightarrow> system" where
  "main_iteration env s =
     (let current_time = clock env;
          s1 = (case should_take_screenshot current_time s of
                  (True, s') \<Rightarrow>
                    (case take_screenshot (capture env) s' of
                       (screenshot_path, s'') \<Rightarrow>
                         if truthy screenshot_path then update_screenshot_time current_time s''
                         else s'')
                | (False, s') \<Rightarrow> s')
      in case was_clicked s1 of
           (True, s2) \<Rightarrow>
             (case mouse_position env of
                (x, y) \<Rightarrow>
                  print_line (''Click recorded at coordinates: '' @ str_number x @ '', '' @ str_number y) s2)
         | (False, s2) \<Rightarrow> s2)"

text \<open>
  The loop runs until the process is interrupted; its iterations up to that point are
  the list of their environments.
\<close>

fun main_loop :: "iteration_env list \<Rightarrow> system \<Rightarrow> system" where
  "main_loop [] s = s"
| "main_loop (env # envs) s = main_loop envs (main_iteration env s)"

text \<open>
  \<^verbatim>\<open>main\<close>, from the construction of the controller to the interrupt: the monitor id
  read from the environment variable, the files present at the start, and the iterations
  that run.
\<close>

definition initial_system :: "int \<Rightarrow> (string \<rightharpoonup> string) \<Rightarrow> system" where
  "initial_system mon fs =
     \<lparr>self = init_controller ''data/text'' ''data/images'' 0.5 mon, files = fs, stdout = []\<rparr>"

definition main :: "int \<Rightarrow> (string \<rightharpoonup> string) \<Rightarrow> iteration_env list \<Rightarrow> system" where
  "main mon fs envs =
     print_line (CHR 0x0A # ''Mouse tracking and screenshot capture stopped.'')
       (main_loop envs
          (print_line ''Tracking mouse clicks and taking screenshots. Press Ctrl+C to exit.''
             (initial_system mon fs)))"

section \<open>Reading a record back\<close>

text \<open>
  The records are data for a later consumer, which parses each file as JSON and splits
  the assistant content at the comma. That reader is modelled here: \<^verbatim>\<open>json.loads\<close> for
  documents made of strings, arrays and objects, the subscripts that reach the fields of
  a record, \<^verbatim>\<open>str.split(",")\<close> and \<^verbatim>\<open>int(token)\<close>.
\<close>

subsection \<open>\<^verbatim>\<open>json.loads\<close>\<close>

text \<open>
  JSON whitespace.
\<close>

definition is_ws :: "char \<Rightarrow> bool" where
  "is_ws c = (c = CHR '' '' \<or> c = CHR 0x0A \<or> c = CHR 0x0D \<or> c = CHR 0x09)"

definition skip_ws :: "string \<Rightarrow> string" where
  "skip_ws cs = dropWhile is_ws cs"

text \<open>
  The value of a hexadecimal digit, in either case.
\<close>

definition hex_value :: "char \<Rightarrow> nat option" where
  "hex_value c =
     (if 48 \<le> (of_char c :: nat) \<and> (of_char c :: nat) \<le> 57 then Some (of_char c - 48)
      else if 97 \<le> (of_char c :: nat) \<and> (of_char c :: nat) \<le> 102 then Some (of_char c - 87)
      else if 65 \<le> (of_char c :: nat) \<and> (of_char c :: nat) \<le> 70 then Some (of_char c - 55)
      else None)"

text \<open>
  The character a one-letter escape stands for.
\<close>

definition unescape :: "char \<Rightarrow> char option" where
  "unescape e =
     (if e = CHR 0x22 then Some (CHR 0x22)
      else if e = CHR 0x5C then Some (CHR 0x5C)
      else if e = CHR ''/'' then Some CHR ''/''
      else if e = CHR ''b'' then Some (CHR 0x08)
      else if e = CHR ''f'' then Some (CHR 0x0C)
      else if e = CHR ''n'' then Some (CHR 0x0A)
      else if e = CHR ''r'' then Some (CHR 0x0D)
      else if e = CHR ''t'' then Some (CHR 0x09)
      else None)"

text \<open>
  One escape sequence, read after its backslash: a one-letter escape, or \<^verbatim>\<open>uXXXX\<close> with a
  code point below 256 (the characters of this model).
\<close>

definition decode_escape :: "string \<Rightarrow> (char \<times> string) option" where
  "decode_escape cs =
     (case cs of
        [] \<Rightarrow> None
      | e # r \<Rightarrow>
          if e = CHR ''u'' then
            (case r of
               h1 # h2 # h3 # h4 # r' \<Rightarrow>
                 (case hex_value h1 of None \<Rightarrow> None | Some a \<Rightarrow>
                  case hex_value h2 of None \<Rightarrow> None | Some b \<Rightarrow>
                  case hex_value h3 of None \<Rightarrow> None | Some c \<Rightarrow>
                  case hex_value h4 of None \<Rightarrow> None | Some d \<Rightarrow>
                    if ((a * 16 + b) * 16 + c) * 16 + d < 256
                    then Some (char_of (((a * 16 + b) * 16 + c) * 16 + d), r')
                    else None)
             | _ \<Rightarrow> None)
          else (case unescape e of None \<Rightarrow> None | Some d \<Rightarrow> Some (d, r)))"

lemma decode_escape_shorter: "decode_escape cs = Some (d, r) \<Longrightarrow> length r < length cs"
  by (auto simp: decode_escape_def split: list.splits if_splits option.splits)

text \<open>
  The characters of a string literal after its opening quote, up to the closing quote:
  the decoded string and the text that follows. A raw control character is refused.
\<close>

function parse_string_body :: "string \<Rightarrow> (string \<times> string) option" where
  "parse_string_body [] = None"
| "parse_string_body (c # cs) =
     (if c = CHR 0x22 then Some ([], cs)
      else if c = CHR 0x5C then
        (case decode_escape cs of
           None \<Rightarrow> None
         | Some (d, r) \<Rightarrow>
             (case parse_string_body r of None \<Rightarrow> None | Some (s, t) \<Rightarrow> Some (d # s, t)))
      else if (of_char c :: nat) < 32 then None
      else (case parse_string_body cs of None \<Rightarrow> None | Some (s, t) \<Rightarrow> Some (c # s, t)))"
  by pat_completeness auto
termination
  by (relation "measure length") (auto dest: decode_escape_shorter)

text \<open>
  A value, the elements of a non-empty array up to its closing bracket, and the members
  of a non-empty object up to its closing brace. The first argument bounds the number of
  nested calls; \<open>json_loads\<close> passes the length of the text, which is always enough
  for a text that \<open>json_encode\<close> produced (\<open>json_fuel_le_length\<close> below).
\<close>

fun parse_value :: "nat \<Rightarrow> string \<Rightarrow> (json \<times> string) option"
  and parse_elements :: "nat \<Rightarrow> string \<Rightarrow> (json list \<times> string) option"
  and parse_members :: "nat \<Rightarrow> string \<Rightarrow> ((string \<times> json) list \<times> string) option" where
  "parse_value 0 cs = None"
| "parse_value (Suc n) cs =
     (case skip_ws cs of
        [] \<Rightarrow> None
      | c # r \<Rightarrow>
          if c = CHR 0x22 then
            (case parse_string_body r of None \<Rightarrow> None | Some (s, t) \<Rightarrow> Some (JString s, t))
          else if c = CHR ''['' then
            (if skip_ws r \<noteq> [] \<and> hd (skip_ws r) = CHR '']'' then Some (JArray [], tl (skip_ws r))
             else (case parse_elements n r of None \<Rightarrow> None | Some (vs, t) \<Rightarrow> Some (JArray vs, t)))
          else if c = CHR ''{'' then
            (if skip_ws r \<noteq> [] \<and> hd (skip_ws r) = CHR ''}'' then Some (JObject [], tl (skip_ws r))
             else (case parse_members n r of None \<Rightarrow> None | Some (kvs, t) \<Rightarrow> Some (JObject kvs, t)))
          else None)"
| "parse_elements 0 cs = None"
| "parse_elements (Suc n) cs =
     (case parse_value n cs of
        None \<Rightarrow> None
      | Some (v, r) \<Rightarrow>
          (case skip_ws r of
             [] \<Rightarrow> None
           | c # t \<Rightarrow>
               if c = CHR '','' then
                 (case parse_elements n t of None \<Rightarrow> None | Some (vs, u) \<Rightarrow> Some (v # vs, u))
               else if c = CHR '']'' then Some ([v], t)
               else None))"
| "parse_members 0 cs = None"
| "parse_members (Suc n) cs =
     (case skip_ws cs of
        [] \<Rightarrow> None
      | q # r \<Rightarrow>
          if q = CHR 0x22 then
            (case parse_string_body r of
               None \<Rightarrow> None
             | Some (k, r1) \<Rightarrow>
                 (case skip_ws r1 of
                    [] \<Rightarrow> None
                  | colon # r2 \<Rightarrow>
                      if colon = CHR '':'' then
                        (case parse_value n r2 of
                           None \<Rightarrow> None
                         | Some (v, r3) \<Rightarrow>
                             (case skip_ws r3 of
                                [] \<Rightarrow> None
                              | c # t \<Rightarrow>
                                  if c = CHR '','' then
                                    (case parse_members n t of
                                       None \<Rightarrow> None
                                     | Some (kvs, u) \<Rightarrow> Some ((k, v) # kvs, u))
                                  else if c = CHR ''}'' then Some ([(k, v)], t)
                                  else None))
                      else None))
          else None)"

text \<open>
  The whole text must be one value, followed by whitespace only.
\<close>

definition json_loads :: "string \<Rightarrow> json option" where
  "json_loads s =
     (case parse_value (length s) s of
        None \<Rightarrow> None
      | Some (v, rest) \<Rightarrow> if skip_ws rest = [] then Some v else None)"

text \<open>
  The number of nested calls that parsing the encoding of a value needs at most.
\<close>

fun json_fuel :: "json \<Rightarrow> nat" where
  "json_fuel (JString s) = 1"
| "json_fuel (JArray vs) = Suc (sum_list (map (\<lambda>v. Suc (json_fuel v)) vs))"
| "json_fuel (JObject kvs) = Suc (sum_list (map (\<lambda>kv. Suc (json_fuel (snd kv))) kvs))"

text \<open>
  A value round-trips when parsing its encoding, at any nesting level and before any
  following text, gives the value back and leaves that text.
\<close>

definition roundtrips :: "json \<Rightarrow> bool" where
  "roundtrips v = (\<forall>n lvl rest. json_fuel v \<le> n \<longrightarrow>
      parse_value n (json_encode lvl v @ rest) = Some (v, rest))"

subsection \<open>The fields of a record\<close>

text \<open>
  The subscripts \<^verbatim>\<open>obj[key]\<close> and \<^verbatim>\<open>arr[i]\<close> on a parsed document.
\<close>

fun json_get :: "string \<Rightarrow> json \<Rightarrow> json option" where
  "json_get k (JObject kvs) = map_of kvs k"
| "json_get k (JArray vs) = None"
| "json_get k (JString s) = None"

fun json_item :: "nat \<Rightarrow> json \<Rightarrow> json option" where
  "json_item i (JArray vs) = (if i < length vs then Some (vs ! i) else None)"
| "json_item i (JObject kvs) = None"
| "json_item i (JString s) = None"

text \<open>
  \<^verbatim>\<open>v["messages"][i][k]\<close>, \<^verbatim>\<open>v["messages"][0]["content"][i][k]\<close> and
  \<^verbatim>\<open>v["messages"][0]["content"][1]["image_url"]["url"]\<close>.
\<close>

definition message_field :: "nat \<Rightarrow> string \<Rightarrow> json \<Rightarrow> json option" where
  "message_field i k v =
     Option.bind (json_get ''messages'' v) (\<lambda>ms. Option.bind (json_item i ms) (json_get k))"

definition user_part :: "nat \<Rightarrow> string \<Rightarrow> json \<Rightarrow> json option" where
  "user_part i k v =
     Option.bind (message_field 0 ''content'' v) (\<lambda>parts. Option.bind (json_item i parts) (json_get k))"

definition image_reference :: "json \<Rightarrow> json option" where
  "image_reference v = Option.bind (user_part 1 ''image_url'' v) (json_get ''url'')"

subsection \<open>The coordinate text\<close>

text \<open>
  \<^verbatim>\<open>s.split(sep)\<close> for a separator of one character.
\<close>

fun split_on :: "char \<Rightarrow> string \<Rightarrow> string list" where
  "split_on sep [] = [[]]"
| "split_on sep (c # cs) =
     (if c = sep then [] # split_on sep cs
      else (case split_on sep cs of [] \<Rightarrow> [[c]] | t # ts \<Rightarrow> (c # t) # ts))"

text \<open>
  \<^verbatim>\<open>int(token)\<close> for a token that is an optional minus sign followed by decimal
  digits; any other token is refused.
\<close>

definition is_digit :: "char \<Rightarrow> bool" where
  "is_digit c = (48 \<le> (of_char c :: nat) \<and> (of_char c :: nat) \<le> 57)"

fun digits_value :: "nat \<Rightarrow> string \<Rightarrow> nat" where
  "digits_value acc [] = acc"
| "digits_value acc (c # cs) = digits_value (acc * 10 + (of_char c - 48)) cs"

definition int_of_string :: "string \<Rightarrow> int option" where
  "int_of_string s =
     (case s of
        [] \<Rightarrow> None
      | c # cs \<Rightarrow>
          if c = CHR ''-'' then
            (if cs \<noteq> [] \<and> list_all is_digit cs then Some (- int (digits_value 0 cs)) else None)
          else if list_all is_digit s then Some (int (digits_value 0 s))
          else None)"

text \<open>
  \<^verbatim>\<open>float(token)\<close> for a token made of an optional minus sign, digits with an optional
  point and an optional exponent. The float is returned in the representation above:
  leading and trailing zeros dropped, the position of the point counted from the first
  digit that remains and moved by the exponent. For a token that \<^verbatim>\<open>repr\<close> produced this
  is the float it came from; for a decimal with more digits than its float needs it is
  the decimal as written.
\<close>

definition digit_values :: "string \<Rightarrow> nat list" where
  "digit_values s = map (\<lambda>c. of_char c - 48) s"

definition strip_trailing_zeros :: "nat list \<Rightarrow> nat list" where
  "strip_trailing_zeros ds = rev (dropWhile (\<lambda>d. d = 0) (rev ds))"

definition normalise :: "nat list \<Rightarrow> int \<Rightarrow> nat list \<times> int" where
  "normalise ds p =
     (let zeros = length (takeWhile (\<lambda>d. d = 0) ds)
      in if zeros = length ds then ([0], 1)
         else (strip_trailing_zeros (drop zeros ds), p - int zeros))"

definition exponent_of_string :: "string \<Rightarrow> int option" where
  "exponent_of_string s =
     (case s of
        [] \<Rightarrow> None
      | c # cs \<Rightarrow>
          if c = CHR ''+'' \<or> c = CHR ''-'' then
            (if cs \<noteq> [] \<and> list_all is_digit cs
             then Some (if c = CHR ''-'' then - int (digits_value 0 cs) else int (digits_value 0 cs))
             else None)
          else if list_all is_digit s then Some (int (digits_value 0 s))
          else None)"

definition unsigned_float :: "string \<Rightarrow> (nat list \<times> int) option" where
  "unsigned_float body =
     (let mantissa = takeWhile (\<lambda>c. c \<noteq> CHR ''e'') body;
          exponent = dropWhile (\<lambda>c. c \<noteq> CHR ''e'') body;
          int_part = takeWhile (\<lambda>c. c \<noteq> CHR ''.'') mantissa;
          frac_part = (case dropWhile (\<lambda>c. c \<noteq> CHR ''.'') mantissa of [] \<Rightarrow> [] | dot # r \<Rightarrow> r)
      in if int_part @ frac_part = [] \<or> \<not> list_all is_digit (int_part @ frac_part) then None
         else case (if exponent = [] then Some 0 else exponent_of_string (tl exponent)) of
                None \<Rightarrow> None
              | Some e \<Rightarrow>
                  Some (normalise (digit_values (int_part @ frac_part)) (int (length int_part) + e)))"

definition float_of_string :: "string \<Rightarrow> number option" where
  "float_of_string s =
     (if s \<noteq> [] \<and> hd s = CHR ''-''
      then map_option (\<lambda>(ds, p). PyFloat True ds p) (unsigned_float (tl s))
      else map_option (\<lambda>(ds, p). PyFloat False ds p) (unsigned_float s))"

text \<open>
  A numeric token read as the number it denotes: a float when it has a point or an
  exponent, an int otherwise.
\<close>

definition number_of_string :: "string \<Rightarrow> number option" where
  "number_of_string s =
     (if CHR ''.'' \<in> set s \<or> CHR ''e'' \<in> set s then float_of_string s
      else map_option PyInt (int_of_string s))"

section \<open>Observations and concrete inputs\<close>

text \<open>The number of capture diagnostics printed so far.\<close>

definition capture_errors :: "system \<Rightarrow> nat" where
  "capture_errors s = length (filter (\<lambda>l. take 25 l = ''Error taking screenshot: '') (stdout s))"

text \<open>
  Pointer positions: (640.0, 360.5) and (700.0, -12.25).
\<close>

definition sample_x :: number where
  "sample_x = PyFloat False [6, 4] 3"

definition sample_y :: number where
  "sample_y = PyFloat False [3, 6, 0, 5] 3"

definition other_x :: number where
  "other_x = PyFloat False [7] 3"

definition other_y :: number where
  "other_y = PyFloat True [1, 2, 2, 5] 2"

text \<open>
  A run of \<^verbatim>\<open>collect.py\<close> on monitor 2 with one transient screenshot on disk, a click
  environment whose rename outcome is a parameter, and capture subsystems that succeed
  and that fail.
\<close>

definition sample_datetime :: datetime where
  "sample_datetime = \<lparr>year = 2024, month = 5, day = 17, hour = 9, minute = 3, second = 7,
     microsecond = 123456\<rparr>"

definition sample_click_env :: "string option \<Rightarrow> click_env" where
  "sample_click_env failure =
     \<lparr>now = sample_datetime, rename_failure = failure,
      first_save = \<lparr>time_time = 1715936587.1234, open_failure = None\<rparr>,
      handler_save = \<lparr>time_time = 1715936587.1249, open_failure = None\<rparr>\<rparr>"

definition sample_system :: system where
  "sample_system = initial_system 2 [''data/images/screenshot.jpg'' \<mapsto> ''JPEG'']"

definition sample_capture_env :: capture_env where
  "sample_capture_env =
     \<lparr>monitors = [\<lparr>mon_left = 0, mon_top = 0, mon_width = 2880, mon_height = 900\<rparr>,
                  \<lparr>mon_left = 0, mon_top = 0, mon_width = 1440, mon_height = 900\<rparr>,
                  \<lparr>mon_left = 1440, mon_top = 0, mon_width = 1440, mon_height = 900\<rparr>],
      grab = (\<lambda>m. Inr \<lparr>width = nat (mon_width m), height = nat (mon_height m), rgb = ''RGB''\<rparr>),
      save_jpeg = (\<lambda>img w h. Inr ''JPEG'')\<rparr>"

definition sample_failing_env :: "real \<Rightarrow> iteration_env" where
  "sample_failing_env t =
     \<lparr>clock = t,
      capture = sample_capture_env\<lparr>grab := (\<lambda>m. Inl (CaptureError ''display unavailable''))\<rparr>,
      mouse_position = (sample_x, sample_y)\<rparr>"

text \<open>
  Three clock readings: two within the same millisecond and one in the next, and the
  environment of a \<^verbatim>\<open>save_click_data\<close> call that reads a given clock and whose write
  succeeds.
\<close>

definition click_time :: real where
  "click_time = 1715936587.1234"

definition click_time_same_ms :: real where
  "click_time_same_ms = 1715936587.1238"

definition click_time_next_ms :: real where
  "click_time_next_ms = 1715936587.1249"

definition sample_save_env :: "real \<Rightarrow> save_env" where
  "sample_save_env t = \<lparr>time_time = t, open_failure = None\<rparr>"

text \<open>
  Click environments whose rename fails while the record write succeeds, and whose
  rename succeeds while the first record write fails.
\<close>

definition busy_click_env :: "real \<Rightarrow> click_env" where
  "busy_click_env t =
     \<lparr>now = sample_datetime, rename_failure = Some ''busy'',
      first_save = sample_save_env t, handler_save = sample_save_env t\<rparr>"

definition failed_write_click_env :: click_env where
  "failed_write_click_env =
     \<lparr>now = sample_datetime, rename_failure = None,
      first_save = \<lparr>time_time = click_time, open_failure = Some ''too many open files''\<rparr>,
      handler_save = sample_save_env click_time_next_ms\<rparr>"

section \<open>Properties\<close>

subsection \<open>Paths and formatting\<close>

lemma path_join_nonempty: "b \<noteq> [] \<Longrightarrow> path_join a b \<noteq> []"
  by (simp add: path_join_def)

lemma path_join_last: "b \<noteq> [] \<Longrightarrow> last (path_join a b) = last b"
  by (simp add: path_join_def)

lemma path_join_relative:
  "b \<noteq> [] \<Longrightarrow> hd b \<noteq> CHR ''/'' \<Longrightarrow>
   path_join a b = (if a = [] \<or> last a = CHR ''/'' then a else a @ ''/'') @ b"
  by (simp add: path_join_def)

lemma generic_neq_new: "generic_screenshot_path c \<noteq> new_screenshot_path c dt"
  by (simp add: generic_screenshot_path_def new_screenshot_path_def path_join_relative)

lemma output_neq_generic: "output_file c t \<noteq> generic_screenshot_path c'"
proof
  assume "output_file c t = generic_screenshot_path c'"
  then have "last (output_file c t) = last (generic_screenshot_path c')" by simp
  then show False
    by (simp add: output_file_def generic_screenshot_path_def path_join_last)
qed

lemma output_neq_new: "output_file c t \<noteq> new_screenshot_path c' dt"
proof
  assume "output_file c t = new_screenshot_path c' dt"
  then have "last (output_file c t) = last (new_screenshot_path c' dt)" by simp
  then show False
    by (simp add: output_file_def new_screenshot_path_def path_join_last)
qed

lemma paths_distinct [simp]:
  "output_file c t \<noteq> generic_screenshot_path c'"
  "generic_screenshot_path c' \<noteq> output_file c t"
  "output_file c t \<noteq> new_screenshot_path c' dt"
  "new_screenshot_path c' dt \<noteq> output_file c t"
  "generic_screenshot_path c \<noteq> new_screenshot_path c dt"
  "new_screenshot_path c dt \<noteq> generic_screenshot_path c"
  using output_neq_generic [of c t c'] output_neq_new [of c t c' dt] generic_neq_new [of c dt]
  by auto

lemma paths_ignore_clicked [simp]:
  "generic_screenshot_path (c\<lparr>clicked := f\<rparr>) = generic_screenshot_path c"
  "new_screenshot_path (c\<lparr>clicked := f\<rparr>) dt = new_screenshot_path c dt"
  "output_file (c\<lparr>clicked := f\<rparr>) t = output_file c t"
  by (simp_all add: generic_screenshot_path_def new_screenshot_path_def output_file_def)

lemma digit_char_eval [simp]:
  "digit_char 0 = CHR ''0''" "digit_char 1 = CHR ''1''" "digit_char (Suc 0) = CHR ''1''"
  "digit_char 2 = CHR ''2''" "digit_char 3 = CHR ''3''" "digit_char 4 = CHR ''4''"
  "digit_char 5 = CHR ''5''" "digit_char 6 = CHR ''6''" "digit_char 7 = CHR ''7''"
  "digit_char 8 = CHR ''8''" "digit_char 9 = CHR ''9''"
  by (simp_all add: digit_char_def) code_simp+

subsection \<open>The concrete inputs\<close>

lemma sample_new_path:
  "new_screenshot_path (self sample_system) sample_datetime
     = ''data/images/screenshot_20240517_090307_123.jpg''"
  by (simp add: sample_system_def initial_system_def init_controller_def sample_datetime_def
      new_screenshot_path_def strftime_stamp_def zero_pad_def digits10.simps
      drop_last3_def path_join_def)

lemma sample_generic_path:
  "generic_screenshot_path (self sample_system) = ''data/images/screenshot.jpg''"
  by (simp add: sample_system_def initial_system_def init_controller_def
      generic_screenshot_path_def path_join_def)

lemma sample_exists:
  "os_path_exists (generic_screenshot_path (self sample_system)) sample_system"
  by (simp add: sample_generic_path os_path_exists_def)
     (simp add: sample_system_def initial_system_def)

lemma sample_files:
  "files sample_system ''data/images/screenshot.jpg'' = Some ''JPEG''"
  "stdout sample_system = []"
  by (simp_all add: sample_system_def initial_system_def)

subsection \<open>The click handler\<close>

text \<open>
  C10. A pointer event that is not a press of the left button changes nothing: the
  handler returns without an exception and the whole system state, the click flag, the
  files and the output included, is the state it started from.
\<close>

theorem on_click_ignores_other_events:
  "b \<noteq> Button_left \<or> \<not> pressed \<Longrightarrow> on_click env x y b pressed s = (None, s)"
  by (cases b) (auto simp: on_click_def)

theorem on_click_ignores_other_events_witness:
  "on_click (sample_click_env None) sample_x sample_y Button_right True sample_system = (None, sample_system)
   \<and> on_click (sample_click_env None) sample_x sample_y Button_left False sample_system
       = (None, sample_system)"
  using on_click_ignores_other_events
      [of Button_right True "sample_click_env None" sample_x sample_y sample_system]
    on_click_ignores_other_events
      [of Button_left False "sample_click_env None" sample_x sample_y sample_system]
  by simp

text \<open>
  A left press that finds no transient screenshot reaches the call
  \<^verbatim>\<open>self.save_click_data(x, y)\<close>, which lacks the third argument: the handler sets the
  click flag and raises \<^verbatim>\<open>TypeError\<close>; no file is written.
\<close>

lemma on_click_without_screenshot:
  "\<not> os_path_exists (generic_screenshot_path (self s)) s \<Longrightarrow>
   on_click env x y Button_left True s
     = (Some (TypeError missing_argument_message), s\<lparr>self := (self s)\<lparr>clicked := True\<rparr>\<rparr>)"
  by (simp add: on_click_def save_click_data_def os_path_exists_def Let_def)

text \<open>
  C1 (the code at a left press with no transient screenshot on disk). The claim asks
  for an example record with the coordinate text; the handler raises \<^verbatim>\<open>TypeError\<close>
  instead and the file map stays empty.
\<close>

theorem on_click_without_screenshot_raises:
  "on_click (sample_click_env None) sample_x sample_y Button_left True (initial_system 2 Map.empty)
     = (Some (TypeError missing_argument_message),
        (initial_system 2 Map.empty)
          \<lparr>self := (self (initial_system 2 Map.empty))\<lparr>clicked := True\<rparr>\<rparr>)
   \<and> files (snd (on_click (sample_click_env None) sample_x sample_y Button_left True
         (initial_system 2 Map.empty))) = Map.empty"
  by (simp add: on_click_def save_click_data_def os_path_exists_def Let_def initial_system_def)



subsection \<open>The click flag\<close>




subsection \<open>Capture timing\<close>

text \<open>
  C5. \<^verbatim>\<open>should_take_screenshot\<close> answers true exactly when the time since the last
  recorded capture has reached the interval, and it returns the state it was given. After
  a capture recorded at \<open>now1\<close>, a call at a later \<open>now2\<close> less than the interval away
  answers false, and a call at a \<open>now2\<close> at least the interval away answers true.
\<close>

theorem should_take_screenshot_spec:
  "fst (should_take_screenshot t s)
     = (t - last_screenshot_time (self s) \<ge> screenshot_interval (self s))
   \<and> snd (should_take_screenshot t s) = s
   \<and> (now1 < now2 \<and> now2 - now1 < screenshot_interval (self s)
        \<longrightarrow> \<not> fst (should_take_screenshot now2 (update_screenshot_time now1 s)))
   \<and> (now2 - now1 \<ge> screenshot_interval (self s)
        \<longrightarrow> fst (should_take_screenshot now2 (update_screenshot_time now1 s)))"
  by (simp add: should_take_screenshot_def update_screenshot_time_def)

theorem should_take_screenshot_spec_witness:
  "(0::real) < 0.3 \<and> (0.3::real) - 0 < screenshot_interval (self sample_system)
   \<and> \<not> fst (should_take_screenshot 0.3 (update_screenshot_time 0 sample_system))
   \<and> (0.5::real) - 0 \<ge> screenshot_interval (self sample_system)
   \<and> fst (should_take_screenshot 0.5 (update_screenshot_time 0 sample_system))"
  using should_take_screenshot_spec
      [where s = sample_system and ?now1.0 = 0 and ?now2.0 = "0.3"]
    should_take_screenshot_spec
      [where s = sample_system and ?now1.0 = 0 and ?now2.0 = "0.5"]
  by (simp add: sample_system_def initial_system_def init_controller_def)

subsection \<open>Capture\<close>

text \<open>
  C7. \<^verbatim>\<open>take_screenshot\<close> always returns a value. When its \<^verbatim>\<open>try\<close> body completes, the
  value is the generic screenshot path, a file is at that path, nothing was printed and
  the controller is unchanged. When the body raises, whatever the exception, the value is
  \<^verbatim>\<open>None\<close> and the only effect is the printed diagnostic with the exception's message.
\<close>

theorem take_screenshot_catches_everything:
  "(case take_screenshot_try env s of
      (Inr p, s') \<Rightarrow>
         take_screenshot env s = (Some (generic_screenshot_path (self s)), s')
       \<and> files s' (generic_screenshot_path (self s)) \<noteq> None
       \<and> stdout s' = stdout s \<and> self s' = self s
    | (Inl e, s') \<Rightarrow>
         take_screenshot env s
           = (None, print_line (''Error taking screenshot: '' @ exn_message e) s))"
  by (simp add: take_screenshot_def take_screenshot_try_def generic_screenshot_path_def Let_def
      split: sum.splits)

lemma take_screenshot_truthy:
  "truthy (fst (take_screenshot cenv s)) = (fst (take_screenshot cenv s) \<noteq> None)"
  by (auto simp: take_screenshot_def take_screenshot_try_def Let_def truthy_def path_join_nonempty
      split: sum.splits)

lemma take_screenshot_self: "take_screenshot cenv s = (r, s') \<Longrightarrow> self s' = self s"
  by (auto simp: take_screenshot_def take_screenshot_try_def Let_def print_line_def
      split: sum.splits)

lemma take_screenshot_fails_cong:
  "monitor_id (self s') = monitor_id (self s) \<Longrightarrow>
   (fst (take_screenshot cenv s') = None) = (fst (take_screenshot cenv s) = None)"
  by (auto simp: take_screenshot_def take_screenshot_try_def Let_def split: sum.splits)

lemma take_screenshot_stdout:
  "stdout (snd (take_screenshot cenv s)) =
     (case fst (take_screenshot_try cenv s) of
        Inl e \<Rightarrow> stdout s @ [''Error taking screenshot: '' @ exn_message e]
      | Inr p \<Rightarrow> stdout s)"
  by (auto simp: take_screenshot_def take_screenshot_try_def Let_def print_line_def
      split: sum.splits)

lemma take_screenshot_None:
  "(fst (take_screenshot cenv s) = None) = (\<exists>e. fst (take_screenshot_try cenv s) = Inl e)"
  by (auto simp: take_screenshot_def split: sum.splits prod.splits)

subsection \<open>The polling loop\<close>

lemma main_iteration_last_time:
  "last_screenshot_time (self (main_iteration env s)) =
     (if fst (should_take_screenshot (clock env) s) \<and> fst (take_screenshot (capture env) s) \<noteq> None
      then clock env else last_screenshot_time (self s))"
  using take_screenshot_truthy [of "capture env" s]
  by (auto simp: main_iteration_def should_take_screenshot_def update_screenshot_time_def
      was_clicked_def print_line_def Let_def dest: take_screenshot_self
      split: prod.splits bool.splits)

lemma main_iteration_frame:
  "monitor_id (self (main_iteration env s)) = monitor_id (self s)
   \<and> screenshot_interval (self (main_iteration env s)) = screenshot_interval (self s)
   \<and> screenshot_dir (self (main_iteration env s)) = screenshot_dir (self s)
   \<and> output_dir (self (main_iteration env s)) = output_dir (self s)"
  by (auto simp: main_iteration_def should_take_screenshot_def update_screenshot_time_def
      was_clicked_def print_line_def Let_def dest: take_screenshot_self
      split: prod.splits bool.splits)

lemma main_iteration_failed_capture_errors:
  assumes "fst (should_take_screenshot (clock env) s)"
      and "fst (take_screenshot (capture env) s) = None"
  shows "capture_errors (main_iteration env s) = Suc (capture_errors s)"
proof -
  obtain e where e: "fst (take_screenshot_try (capture env) s) = Inl e"
    using assms(2) by (auto simp: take_screenshot_None)
  obtain s' where s': "take_screenshot (capture env) s = (None, s')"
    using assms(2) by (cases "take_screenshot (capture env) s") auto
  have out: "stdout s' = stdout s @ [''Error taking screenshot: '' @ exn_message e]"
    using take_screenshot_stdout [of "capture env" s] e s' by simp
  show ?thesis
    using assms(1) s' out
    by (auto simp: main_iteration_def should_take_screenshot_def was_clicked_def
        print_line_def Let_def truthy_def capture_errors_def split: prod.splits bool.splits)
qed

lemma main_loop_retries:
  assumes "\<forall>e \<in> set envs. fst (take_screenshot (capture e) s) = None \<and> t0 \<le> clock e"
      and "screenshot_interval (self s) \<le> t0 - last_screenshot_time (self s)"
  shows "last_screenshot_time (self (main_loop envs s)) = last_screenshot_time (self s)
       \<and> capture_errors (main_loop envs s) = capture_errors s + length envs"
  using assms
proof (induction envs arbitrary: s)
  case Nil
  then show ?case by simp
next
  case (Cons env envs)
  have due: "fst (should_take_screenshot (clock env) s)"
    using Cons.prems by (simp add: should_take_screenshot_def)
  have fails: "fst (take_screenshot (capture env) s) = None"
    using Cons.prems by simp
  let ?s = "main_iteration env s"
  have last: "last_screenshot_time (self ?s) = last_screenshot_time (self s)"
    using due fails by (simp add: main_iteration_last_time)
  have errs: "capture_errors ?s = Suc (capture_errors s)"
    using due fails by (rule main_iteration_failed_capture_errors)
  have frame: "monitor_id (self ?s) = monitor_id (self s)"
    "screenshot_interval (self ?s) = screenshot_interval (self s)"
    using main_iteration_frame [of env s] by simp_all
  have "\<forall>e \<in> set envs. fst (take_screenshot (capture e) ?s) = None \<and> t0 \<le> clock e"
    using Cons.prems(1) take_screenshot_fails_cong [OF frame(1)] by simp
  moreover have "screenshot_interval (self ?s) \<le> t0 - last_screenshot_time (self ?s)"
    using Cons.prems(2) last frame(2) by simp
  ultimately have "last_screenshot_time (self (main_loop envs ?s)) = last_screenshot_time (self ?s)
       \<and> capture_errors (main_loop envs ?s) = capture_errors ?s + length envs"
    by (rule Cons.IH)
  then show ?case using last errs by simp
qed

text \<open>
  C6. One iteration of the loop sets the last capture time to the iteration's clock
  reading exactly when a capture was due and \<^verbatim>\<open>take_screenshot\<close> returned a path;
  otherwise the last capture time is unchanged. So when a capture is due and every
  capture fails, over any number of further iterations (whose clock readings are no
  earlier) the last capture time never moves and every single iteration attempts the
  capture again, printing one capture diagnostic each.
\<close>

theorem main_iteration_marks_time_iff_captured:
  "last_screenshot_time (self (main_iteration env s)) =
     (if fst (should_take_screenshot (clock env) s) \<and> fst (take_screenshot (capture env) s) \<noteq> None
      then clock env else last_screenshot_time (self s))
   \<and> ((\<forall>e \<in> set envs. fst (take_screenshot (capture e) s) = None \<and> t0 \<le> clock e)
        \<and> screenshot_interval (self s) \<le> t0 - last_screenshot_time (self s)
      \<longrightarrow> last_screenshot_time (self (main_loop envs s)) = last_screenshot_time (self s)
          \<and> capture_errors (main_loop envs s) = capture_errors s + length envs)"
  using main_iteration_last_time [of env s] main_loop_retries [of envs s t0] by blast

lemma sample_failing_capture:
  "fst (take_screenshot (capture (sample_failing_env t)) sample_system) = None"
  "clock (sample_failing_env t) = t"
  by (simp_all add: sample_failing_env_def sample_capture_env_def take_screenshot_def
      take_screenshot_try_def list_subscript_def sample_system_def initial_system_def
      init_controller_def)

theorem main_iteration_marks_time_iff_captured_witness:
  "fst (take_screenshot (capture (sample_failing_env 1)) sample_system) = None
   \<and> (1::real) \<le> clock (sample_failing_env 1)
   \<and> fst (take_screenshot (capture (sample_failing_env 1.01)) sample_system) = None
   \<and> (1::real) \<le> clock (sample_failing_env 1.01)
   \<and> fst (take_screenshot (capture (sample_failing_env 1.02)) sample_system) = None
   \<and> (1::real) \<le> clock (sample_failing_env 1.02)
   \<and> screenshot_interval (self sample_system) \<le> 1 - last_screenshot_time (self sample_system)
   \<and> last_screenshot_time (self (main_loop
         [sample_failing_env 1, sample_failing_env 1.01, sample_failing_env 1.02] sample_system)) = 0
   \<and> capture_errors (main_loop
         [sample_failing_env 1, sample_failing_env 1.01, sample_failing_env 1.02] sample_system) = 3"
proof -
  have s: "screenshot_interval (self sample_system) = 0.5"
    "last_screenshot_time (self sample_system) = 0" "capture_errors sample_system = 0"
    by (simp_all add: sample_system_def initial_system_def init_controller_def capture_errors_def)
  show ?thesis
    using main_iteration_marks_time_iff_captured
      [of "sample_failing_env 1" sample_system
          "[sample_failing_env 1, sample_failing_env 1.01, sample_failing_env 1.02]" 1]
    by (simp add: sample_failing_capture s)
qed

subsection \<open>Parsing what \<^verbatim>\<open>json.dump\<close> wrote\<close>

lemma skip_ws_simps [simp]:
  "skip_ws [] = []"
  "\<not> is_ws c \<Longrightarrow> skip_ws (c # cs) = c # cs"
  "is_ws c \<Longrightarrow> skip_ws (c # cs) = skip_ws cs"
  by (simp_all add: skip_ws_def)

lemma is_ws_simps [simp]:
  "is_ws CHR '' ''" "is_ws (CHR 0x0A)"
  "\<not> is_ws (CHR 0x22)" "\<not> is_ws CHR ''[''" "\<not> is_ws CHR '']''" "\<not> is_ws CHR ''{''"
  "\<not> is_ws CHR ''}''" "\<not> is_ws CHR '',''" "\<not> is_ws CHR '':''"
  by (simp_all add: is_ws_def)

lemma skip_ws_replicate [simp]: "skip_ws (replicate k CHR '' '' @ cs) = skip_ws cs"
  by (induction k) simp_all

lemma skip_ws_newline_indent [simp]: "skip_ws (newline_indent l @ cs) = skip_ws cs"
  by (simp add: newline_indent_def)

lemma hex_value_hex_digit: "d < 16 \<Longrightarrow> hex_value (hex_digit d) = Some d"
  by (simp add: hex_value_def hex_digit_def)

lemma hex_value_zero [simp]: "hex_value CHR ''0'' = Some 0"
  by (simp add: hex_value_def)

lemma decode_escape_unicode:
  "decode_escape (CHR ''u'' # CHR ''0'' # CHR ''0'' # hex_digit ((of_char c :: nat) div 16)
      # hex_digit ((of_char c :: nat) mod 16) # cs) = Some (c, cs)"
proof -
  have lt: "(of_char c :: nat) < 256" by simp
  then have hi: "(of_char c :: nat) div 16 < 16" by presburger
  have lo: "(of_char c :: nat) mod 16 < 16" by simp
  have rt: "char_of ((of_char c :: nat) div 16 * 16 + of_char c mod 16) = c"
    by simp
  show ?thesis
    using lt by (simp add: decode_escape_def hex_value_hex_digit [OF hi] hex_value_hex_digit [OF lo] rt)
qed

lemma parse_string_body_escape_char:
  "parse_string_body (escape_char c @ cs) =
     (case parse_string_body cs of None \<Rightarrow> None | Some (s, t) \<Rightarrow> Some (c # s, t))"
proof -
  consider (short) "c \<in> {CHR 0x22, CHR 0x5C, CHR 0x08, CHR 0x0C, CHR 0x0A, CHR 0x0D, CHR 0x09}"
    | (plain) "c \<notin> {CHR 0x22, CHR 0x5C, CHR 0x08, CHR 0x0C, CHR 0x0A, CHR 0x0D, CHR 0x09}"
        "32 \<le> (of_char c :: nat) \<and> (of_char c :: nat) \<le> 126"
    | (unicode) "c \<notin> {CHR 0x22, CHR 0x5C, CHR 0x08, CHR 0x0C, CHR 0x0A, CHR 0x0D, CHR 0x09}"
        "\<not> (32 \<le> (of_char c :: nat) \<and> (of_char c :: nat) \<le> 126)"
    by blast
  then show ?thesis
  proof cases
    case short
    then show ?thesis
      by (auto simp: escape_char_def decode_escape_def unescape_def split: option.splits)
  next
    case plain
    then show ?thesis
      by (auto simp: escape_char_def split: option.splits)
  next
    case unicode
    then show ?thesis
      by (simp add: escape_char_def decode_escape_unicode split: option.splits)
  qed
qed

lemma parse_string_body_escaped:
  "parse_string_body (concat (map escape_char s) @ CHR 0x22 # rest) = Some (s, rest)"
  by (induction s) (simp_all add: parse_string_body_escape_char)

lemma parse_string_body_encoded:
  "parse_string_body (tl (encode_basestring_ascii s) @ rest) = Some (s, rest)"
  using parse_string_body_escaped [of s rest] by (simp add: encode_basestring_ascii_def)

lemma join_with_Cons:
  "join_with sep (p # ps) = (if ps = [] then p else p @ sep @ join_with sep ps)"
  by (cases ps) simp_all

lemma parse_value_skip_ws: "skip_ws cs = skip_ws cs' \<Longrightarrow> parse_value n cs = parse_value n cs'"
  by (cases n) simp_all

lemma parse_elements_skip_ws:
  "skip_ws cs = skip_ws cs' \<Longrightarrow> parse_elements n cs = parse_elements n cs'"
  by (cases n) (simp_all add: parse_value_skip_ws [of cs cs'])

lemma parse_members_skip_ws:
  "skip_ws cs = skip_ws cs' \<Longrightarrow> parse_members n cs = parse_members n cs'"
  by (cases n) simp_all

lemma json_encode_first:
  "\<exists>c cs. json_encode lvl v = c # cs \<and> \<not> is_ws c \<and> c \<noteq> CHR '']'' \<and> c \<noteq> CHR ''}''
      \<and> c \<in> {CHR 0x22, CHR ''['', CHR ''{''}"
  by (cases v) (auto simp: encode_basestring_ascii_def)

lemma parse_elements_roundtrip:
  assumes "\<And>v. v \<in> set vs \<Longrightarrow> roundtrips v"
      and "vs \<noteq> []"
      and "sum_list (map (\<lambda>v. Suc (json_fuel v)) vs) \<le> n"
  shows "parse_elements n
           (join_with ('','' @ newline_indent l) (map (json_encode l) vs)
              @ newline_indent l' @ '']'' @ rest) = Some (vs, rest)"
  using assms
proof (induction vs arbitrary: n)
  case Nil
  then show ?case by simp
next
  case (Cons v vs)
  from Cons.prems(3) obtain m where n: "n = Suc m" and mv: "json_fuel v \<le> m"
    and mvs: "sum_list (map (\<lambda>v. Suc (json_fuel v)) vs) \<le> m"
    by (cases n) auto
  have rv: "roundtrips v" using Cons.prems(1) by simp
  have pv: "\<And>tail. parse_value m (json_encode l v @ tail) = Some (v, tail)"
    using rv mv by (simp add: roundtrips_def)
  show ?case
  proof (cases "vs = []")
    case True
    then show ?thesis
      using pv [of "newline_indent l' @ '']'' @ rest"] by (simp add: n)
  next
    case False
    have ih: "parse_elements m
           (join_with ('','' @ newline_indent l) (map (json_encode l) vs)
              @ newline_indent l' @ '']'' @ rest) = Some (vs, rest)"
      using Cons.IH [OF _ False mvs] Cons.prems(1) by simp
    have ws: "parse_elements m (newline_indent l @
           join_with ('','' @ newline_indent l) (map (json_encode l) vs)
              @ newline_indent l' @ '']'' @ rest) = Some (vs, rest)"
      using ih parse_elements_skip_ws [OF skip_ws_newline_indent] by simp
    show ?thesis
      using False ws
        pv [of "'','' @ newline_indent l @
           join_with ('','' @ newline_indent l) (map (json_encode l) vs)
              @ newline_indent l' @ '']'' @ rest"]
      by (simp add: n join_with_Cons)
  qed
qed

lemma parse_members_roundtrip:
  assumes "\<And>kv. kv \<in> set kvs \<Longrightarrow> roundtrips (snd kv)"
      and "kvs \<noteq> []"
      and "sum_list (map (\<lambda>kv. Suc (json_fuel (snd kv))) kvs) \<le> n"
  shows "parse_members n
           (join_with ('','' @ newline_indent l)
              (map (\<lambda>kv. encode_basestring_ascii (fst kv) @ '': '' @ json_encode l (snd kv)) kvs)
              @ newline_indent l' @ ''}'' @ rest) = Some (kvs, rest)"
  using assms
proof (induction kvs arbitrary: n)
  case Nil
  then show ?case by simp
next
  case (Cons kv kvs)
  obtain k v where kv: "kv = (k, v)" by (cases kv)
  from Cons.prems(3) obtain m where n: "n = Suc m" and mv: "json_fuel v \<le> m"
    and mvs: "sum_list (map (\<lambda>kv. Suc (json_fuel (snd kv))) kvs) \<le> m"
    by (cases n) (auto simp: kv)
  have rv: "roundtrips v" using Cons.prems(1) [of kv] by (simp add: kv)
  have pv: "\<And>tail. parse_value m (CHR '' '' # json_encode l v @ tail) = Some (v, tail)"
  proof -
    fix tail
    have "parse_value m (json_encode l v @ tail) = Some (v, tail)"
      using rv mv by (simp add: roundtrips_def)
    moreover have "skip_ws (CHR '' '' # json_encode l v @ tail) = skip_ws (json_encode l v @ tail)"
      by simp
    ultimately show "parse_value m (CHR '' '' # json_encode l v @ tail) = Some (v, tail)"
      using parse_value_skip_ws by metis
  qed
  have key: "\<And>tail. encode_basestring_ascii k @ tail = CHR 0x22 # tl (encode_basestring_ascii k) @ tail"
    by (simp add: encode_basestring_ascii_def)
  show ?case
  proof (cases "kvs = []")
    case True
    then show ?thesis
      using pv [of "newline_indent l' @ ''}'' @ rest"]
      by (simp add: n kv key parse_string_body_encoded)
  next
    case False
    have ih: "parse_members m
           (join_with ('','' @ newline_indent l)
              (map (\<lambda>kv. encode_basestring_ascii (fst kv) @ '': '' @ json_encode l (snd kv)) kvs)
              @ newline_indent l' @ ''}'' @ rest) = Some (kvs, rest)"
      using Cons.IH [OF _ False mvs] Cons.prems(1) by simp
    have ws: "parse_members m (newline_indent l @
           join_with ('','' @ newline_indent l)
              (map (\<lambda>kv. encode_basestring_ascii (fst kv) @ '': '' @ json_encode l (snd kv)) kvs)
              @ newline_indent l' @ ''}'' @ rest) = Some (kvs, rest)"
      using ih parse_members_skip_ws [OF skip_ws_newline_indent] by simp
    show ?thesis
      using False ws
        pv [of "'','' @ newline_indent l @
           join_with ('','' @ newline_indent l)
              (map (\<lambda>kv. encode_basestring_ascii (fst kv) @ '': '' @ json_encode l (snd kv)) kvs)
              @ newline_indent l' @ ''}'' @ rest"]
      by (simp add: n kv key join_with_Cons parse_string_body_encoded)
  qed
qed

lemma roundtrips_all: "roundtrips v"
proof (induction v)
  case (JString s)
  show ?case
    unfolding roundtrips_def
  proof (intro allI impI)
    fix n lvl rest
    assume "json_fuel (JString s) \<le> n"
    then obtain m where n: "n = Suc m" by (cases n) auto
    have key: "encode_basestring_ascii s @ rest = CHR 0x22 # tl (encode_basestring_ascii s) @ rest"
      by (simp add: encode_basestring_ascii_def)
    show "parse_value n (json_encode lvl (JString s) @ rest) = Some (JString s, rest)"
      by (simp add: n key parse_string_body_encoded)
  qed
next
  case (JArray vs)
  show ?case
    unfolding roundtrips_def
  proof (intro allI impI)
    fix n lvl rest
    assume fuel: "json_fuel (JArray vs) \<le> n"
    then obtain m where n: "n = Suc m"
      and m: "sum_list (map (\<lambda>v. Suc (json_fuel v)) vs) \<le> m" by (cases n) auto
    show "parse_value n (json_encode lvl (JArray vs) @ rest) = Some (JArray vs, rest)"
    proof (cases "vs = []")
      case True
      then show ?thesis by (simp add: n)
    next
      case False
      let ?body = "join_with ('','' @ newline_indent (Suc lvl)) (map (json_encode (Suc lvl)) vs)
              @ newline_indent lvl @ '']'' @ rest"
      have elems: "parse_elements m ?body = Some (vs, rest)"
        using parse_elements_roundtrip [OF JArray.IH False m] by simp
      then have elems': "parse_elements m (newline_indent (Suc lvl) @ ?body) = Some (vs, rest)"
        using parse_elements_skip_ws [OF skip_ws_newline_indent] by metis
      obtain v vs' where vs: "vs = v # vs'" using False by (cases vs) auto
      obtain c cs where c: "json_encode (Suc lvl) v = c # cs" "\<not> is_ws c" "c \<noteq> CHR '']''"
        using json_encode_first [of "Suc lvl" v] by auto
      have first: "skip_ws ?body \<noteq> [] \<and> hd (skip_ws ?body) \<noteq> CHR '']''"
        using c by (simp add: vs join_with_Cons)
      show ?thesis
        using False first elems' by (simp add: n)
    qed
  qed
next
  case (JObject kvs)
  show ?case
    unfolding roundtrips_def
  proof (intro allI impI)
    fix n lvl rest
    assume fuel: "json_fuel (JObject kvs) \<le> n"
    then obtain m where n: "n = Suc m"
      and m: "sum_list (map (\<lambda>kv. Suc (json_fuel (snd kv))) kvs) \<le> m" by (cases n) auto
    show "parse_value n (json_encode lvl (JObject kvs) @ rest) = Some (JObject kvs, rest)"
    proof (cases "kvs = []")
      case True
      then show ?thesis by (simp add: n)
    next
      case False
      let ?body = "join_with ('','' @ newline_indent (Suc lvl))
              (map (\<lambda>kv. encode_basestring_ascii (fst kv) @ '': '' @ json_encode (Suc lvl) (snd kv)) kvs)
              @ newline_indent lvl @ ''}'' @ rest"
      have ih: "\<And>kv. kv \<in> set kvs \<Longrightarrow> roundtrips (snd kv)"
        using JObject.IH Basic_BNFs.snds.intros by blast
      have mem: "parse_members m ?body = Some (kvs, rest)"
        using parse_members_roundtrip [OF ih False m] by simp
      then have mem': "parse_members m (newline_indent (Suc lvl) @ ?body) = Some (kvs, rest)"
        using parse_members_skip_ws [OF skip_ws_newline_indent] by metis
      obtain kv kvs' where kvs: "kvs = kv # kvs'" using False by (cases kvs) auto
      have first: "skip_ws ?body \<noteq> [] \<and> hd (skip_ws ?body) \<noteq> CHR ''}''"
        by (simp add: kvs join_with_Cons encode_basestring_ascii_def)
      show ?thesis
        using False first mem' by (simp add: n)
    qed
  qed
qed

lemma length_join_with:
  "sep \<noteq> [] \<Longrightarrow> sum_list (map (\<lambda>p. Suc (length p)) ps) \<le> Suc (length (join_with sep ps))"
proof (induction ps)
  case Nil
  then show ?case by simp
next
  case (Cons p ps)
  then obtain c cs where "sep = c # cs" by (cases sep) auto
  with Cons show ?case by (auto simp: join_with_Cons)
qed

lemma json_fuel_le_length: "json_fuel v \<le> length (json_encode lvl v)"
proof (induction v arbitrary: lvl)
  case (JString s)
  show ?case by (simp add: encode_basestring_ascii_def)
next
  case (JArray vs)
  show ?case
  proof (cases "vs = []")
    case True
    then show ?thesis by simp
  next
    case False
    have "sum_list (map (\<lambda>v. Suc (json_fuel v)) vs)
        \<le> sum_list (map (\<lambda>v. Suc (length (json_encode (Suc lvl) v))) vs)"
      by (rule sum_list_mono) (simp add: JArray.IH)
    also have "\<dots> = sum_list (map (\<lambda>p. Suc (length p)) (map (json_encode (Suc lvl)) vs))"
      by (simp add: comp_def)
    also have "\<dots> \<le> Suc (length (join_with ('','' @ newline_indent (Suc lvl))
        (map (json_encode (Suc lvl)) vs)))"
      by (rule length_join_with) simp
    finally show ?thesis using False by (simp add: newline_indent_def)
  qed
next
  case (JObject kvs)
  show ?case
  proof (cases "kvs = []")
    case True
    then show ?thesis by simp
  next
    case False
    let ?f = "\<lambda>kv. encode_basestring_ascii (fst kv) @ '': '' @ json_encode (Suc lvl) (snd kv)"
    have ih: "\<And>kv. kv \<in> set kvs \<Longrightarrow> json_fuel (snd kv) \<le> length (json_encode (Suc lvl) (snd kv))"
      using JObject.IH Basic_BNFs.snds.intros by blast
    have "sum_list (map (\<lambda>kv. Suc (json_fuel (snd kv))) kvs)
        \<le> sum_list (map (\<lambda>kv. Suc (length (?f kv))) kvs)"
      by (rule sum_list_mono) (use ih in \<open>simp add: le_SucI trans_le_add2\<close>)
    also have "\<dots> = sum_list (map (\<lambda>p. Suc (length p)) (map ?f kvs))"
      by (simp add: comp_def)
    also have "\<dots> \<le> Suc (length (join_with ('','' @ newline_indent (Suc lvl)) (map ?f kvs)))"
      by (rule length_join_with) simp
    finally show ?thesis using False by (simp add: newline_indent_def)
  qed
qed

lemma json_loads_dumps: "json_loads (json_dumps v) = Some v"
proof -
  have "roundtrips v" by (rule roundtrips_all)
  then have "parse_value (length (json_encode 0 v)) (json_encode 0 v @ []) = Some (v, [])"
    unfolding roundtrips_def using json_fuel_le_length [of v 0] by blast
  then show ?thesis by (simp add: json_loads_def json_dumps_def)
qed

lemma json_dumps_inj: "json_dumps a = json_dumps b \<Longrightarrow> a = b"
  by (metis json_loads_dumps option.inject)

subsection \<open>Integers, coordinate text and file names\<close>

lemma is_digit_digit_char: "d < 10 \<Longrightarrow> is_digit (digit_char d)"
  by (simp add: is_digit_def digit_char_def)

lemma digit_char_value: "d < 10 \<Longrightarrow> (of_char (digit_char d) :: nat) - 48 = d"
  by (simp add: digit_char_def)

lemma digits10_nonempty: "digits10 n \<noteq> []"
  by (subst digits10.simps) simp

lemma digits10_all_digits: "list_all is_digit (digits10 n)"
proof (induction n rule: digits10.induct)
  case (1 n)
  show ?case
  proof (cases "n < 10")
    case True
    then show ?thesis by (subst digits10.simps) (simp add: is_digit_digit_char)
  next
    case False
    then show ?thesis
      using 1 by (subst digits10.simps) (simp add: is_digit_digit_char)
  qed
qed

lemma digits_value_append: "digits_value acc (xs @ [c]) = digits_value acc xs * 10 + (of_char c - 48)"
  by (induction xs arbitrary: acc) simp_all

lemma digits_value_digits10: "digits_value 0 (digits10 n) = n"
proof (induction n rule: digits10.induct)
  case (1 n)
  show ?case
  proof (cases "n < 10")
    case True
    then show ?thesis by (subst digits10.simps) (simp add: digit_char_value)
  next
    case False
    then have "digits_value 0 (digits10 (n div 10)) = n div 10" using 1 by simp
    with False show ?thesis
      by (subst digits10.simps) (simp add: digits_value_append digit_char_value)
  qed
qed

lemma is_digit_not_minus: "is_digit c \<Longrightarrow> c \<noteq> CHR ''-'' \<and> c \<noteq> CHR '',''"
  by (auto simp: is_digit_def)

lemma int_of_string_str_int: "int_of_string (str_int i) = Some i"
proof (cases "i < 0")
  case True
  then show ?thesis
    by (simp add: int_of_string_def str_int_def digits10_nonempty digits10_all_digits
        digits_value_digits10)
next
  case False
  obtain c cs where d: "digits10 (nat i) = c # cs"
    using digits10_nonempty [of "nat i"] by (cases "digits10 (nat i)") auto
  have "is_digit c" using digits10_all_digits [of "nat i"] by (simp add: d)
  then have "c \<noteq> CHR ''-''" using is_digit_not_minus by blast
  moreover have "list_all is_digit (c # cs)" using digits10_all_digits [of "nat i"] by (simp add: d)
  moreover have "digits_value 0 (c # cs) = nat i" using digits_value_digits10 [of "nat i"] by (simp add: d)
  ultimately show ?thesis
    using False by (simp add: int_of_string_def str_int_def d del: digits_value.simps)
qed

lemma str_int_inj: "str_int a = str_int b \<Longrightarrow> a = b"
  by (metis int_of_string_str_int option.inject)

lemma comma_not_in_str_int: "CHR '','' \<notin> set (str_int i)"
proof -
  have "\<And>c. c \<in> set (digits10 n) \<Longrightarrow> c \<noteq> CHR '',''" for n
    using digits10_all_digits [of n] is_digit_not_minus by (auto simp: list_all_iff)
  then show ?thesis by (auto simp: str_int_def)
qed

lemma split_on_absent: "sep \<notin> set s \<Longrightarrow> split_on sep s = [s]"
  by (induction s) auto

lemma split_on_first: "sep \<notin> set a \<Longrightarrow> split_on sep (a @ sep # b) = a # split_on sep b"
  by (induction a) auto

lemma digit_char_code: "d < 10 \<Longrightarrow> (of_char (digit_char d) :: nat) = 48 + d"
  by (simp add: digit_char_def)

lemma digit_char_facts:
  assumes "d < 10"
  shows "is_digit (digit_char d)" "digit_char d \<noteq> CHR ''e''" "digit_char d \<noteq> CHR ''.''"
    "digit_char d \<noteq> CHR ''-''" "digit_char d \<noteq> CHR '',''" "digit_char d \<noteq> CHR ''+''"
    "(of_char (digit_char d) :: nat) - 48 = d"
  using assms digit_char_code [OF assms] by (auto simp: is_digit_def)

lemma digit_char_facts_sym:
  assumes "d < 10"
  shows "CHR ''e'' \<noteq> digit_char d" "CHR ''.'' \<noteq> digit_char d" "CHR '','' \<noteq> digit_char d"
  using digit_char_facts(2,3,5) [OF assms] by auto

lemma digit_string_facts:
  assumes "list_all (\<lambda>d. d < 10) ds"
  shows "list_all is_digit (digit_string ds)"
    "CHR ''e'' \<notin> set (digit_string ds)" "CHR ''.'' \<notin> set (digit_string ds)"
    "CHR '','' \<notin> set (digit_string ds)"
    "digit_values (digit_string ds) = ds"
  using assms
  by (induction ds)
     (auto simp: digit_string_def digit_values_def digit_char_facts digit_char_facts_sym)

lemma is_digit_chars:
  "is_digit c \<Longrightarrow> c \<noteq> CHR ''e'' \<and> c \<noteq> CHR ''.'' \<and> c \<noteq> CHR '','' \<and> c \<noteq> CHR ''-'' \<and> c \<noteq> CHR ''+''"
  by (auto simp: is_digit_def)

lemma is_digit_zero [simp]: "is_digit CHR ''0''"
  by (simp add: is_digit_def)

lemma digits_value_zeros: "digits_value 0 (replicate k CHR ''0'' @ s) = digits_value 0 s"
  by (induction k) simp_all

lemma zero_pad_digits: "list_all is_digit (zero_pad w n)"
  using digits10_all_digits [of n] by (simp add: zero_pad_def list_all_iff) auto

lemma zero_pad_nonempty: "zero_pad w n \<noteq> []"
  by (simp add: zero_pad_def digits10_nonempty)

lemma zero_pad_value: "digits_value 0 (zero_pad w n) = n"
  by (simp add: zero_pad_def digits_value_zeros digits_value_digits10)

lemmas zero_pad_facts = zero_pad_digits zero_pad_nonempty zero_pad_value

lemma exponent_of_string_text: "exponent_of_string (exponent_text e) = Some e"
  by (simp add: exponent_of_string_def exponent_text_def zero_pad_facts del: digits_value.simps)

lemma digits_exclude:
  "list_all is_digit s \<Longrightarrow>
   CHR '','' \<notin> set s \<and> CHR ''.'' \<notin> set s \<and> CHR ''e'' \<notin> set s"
  by (induction s) (simp_all add: is_digit_def, fastforce+)

lemma exponent_text_chars:
  "CHR '','' \<notin> set (exponent_text e)" "CHR ''.'' \<notin> set (exponent_text e)"
  using digits_exclude [OF zero_pad_digits [of 2 "nat \<bar>e\<bar>"]]
  by (simp_all add: exponent_text_def)

lemma strip_trailing_zeros_id: "ds \<noteq> [] \<Longrightarrow> last ds \<noteq> 0 \<Longrightarrow> strip_trailing_zeros ds = ds"
  by (cases ds rule: rev_cases) (simp_all add: strip_trailing_zeros_def)

lemma strip_trailing_zeros_zeros:
  "ds \<noteq> [] \<Longrightarrow> last ds \<noteq> 0 \<Longrightarrow> strip_trailing_zeros (ds @ replicate k 0) = ds"
  by (cases ds rule: rev_cases) (simp_all add: strip_trailing_zeros_def dropWhile_append3)

lemma leading_zeros_none: "ds \<noteq> [] \<Longrightarrow> hd ds \<noteq> 0 \<Longrightarrow> takeWhile (\<lambda>d. d = 0) (ds @ rest) = []"
  by (cases ds) simp_all

lemma leading_zeros_some:
  "ds \<noteq> [] \<Longrightarrow> hd ds \<noteq> 0 \<Longrightarrow>
   takeWhile (\<lambda>d. d = (0::nat)) (replicate k 0 @ ds @ rest) = replicate k 0"
  by (induction k) (simp_all add: leading_zeros_none)

lemma takeWhile_until:
  "c \<notin> set xs \<Longrightarrow> takeWhile (\<lambda>x. x \<noteq> c) (xs @ c # r) = xs"
  "c \<notin> set xs \<Longrightarrow> dropWhile (\<lambda>x. x \<noteq> c) (xs @ c # r) = c # r"
  "c \<notin> set xs \<Longrightarrow> takeWhile (\<lambda>x. x \<noteq> c) xs = xs"
  "c \<notin> set xs \<Longrightarrow> dropWhile (\<lambda>x. x \<noteq> c) xs = []"
  by (induction xs) auto

lemma unsigned_float_dot:
  assumes e: "CHR ''e'' \<notin> set ip" "CHR ''e'' \<notin> set fp"
      and d: "CHR ''.'' \<notin> set ip"
      and g: "ip @ fp \<noteq> []" "list_all is_digit (ip @ fp)"
  shows "unsigned_float (ip @ CHR ''.'' # fp)
           = Some (normalise (digit_values (ip @ fp)) (int (length ip)))"
proof -
  have m: "CHR ''e'' \<notin> set (ip @ CHR ''.'' # fp)" using e by simp
  have mant: "takeWhile (\<lambda>c. c \<noteq> CHR ''e'') (ip @ CHR ''.'' # fp) = ip @ CHR ''.'' # fp"
    by (rule takeWhile_until(3) [OF m])
  have expo: "dropWhile (\<lambda>c. c \<noteq> CHR ''e'') (ip @ CHR ''.'' # fp) = []"
    by (rule takeWhile_until(4) [OF m])
  have ipart: "takeWhile (\<lambda>c. c \<noteq> CHR ''.'') (ip @ CHR ''.'' # fp) = ip"
    by (rule takeWhile_until(1) [OF d])
  have fpart: "dropWhile (\<lambda>c. c \<noteq> CHR ''.'') (ip @ CHR ''.'' # fp) = CHR ''.'' # fp"
    by (rule takeWhile_until(2) [OF d])
  show ?thesis
    apply (simp only: unsigned_float_def Let_def)
    apply (simp only: mant expo)
    apply (simp only: ipart fpart)
    using g apply simp
    done
qed

lemma unsigned_float_dot_exp:
  assumes e: "CHR ''e'' \<notin> set ip" "CHR ''e'' \<notin> set fp"
      and d: "CHR ''.'' \<notin> set ip"
      and g: "ip @ fp \<noteq> []" "list_all is_digit (ip @ fp)"
      and x: "exponent_of_string t = Some ev"
  shows "unsigned_float (ip @ CHR ''.'' # fp @ CHR ''e'' # t)
           = Some (normalise (digit_values (ip @ fp)) (int (length ip) + ev))"
proof -
  have m: "CHR ''e'' \<notin> set (ip @ CHR ''.'' # fp)" using e by simp
  have mant: "takeWhile (\<lambda>c. c \<noteq> CHR ''e'') (ip @ CHR ''.'' # fp @ CHR ''e'' # t) = ip @ CHR ''.'' # fp"
    using takeWhile_until(1) [OF m, of t] by simp
  have expo: "dropWhile (\<lambda>c. c \<noteq> CHR ''e'') (ip @ CHR ''.'' # fp @ CHR ''e'' # t) = CHR ''e'' # t"
    using takeWhile_until(2) [OF m, of t] by simp
  have ipart: "takeWhile (\<lambda>c. c \<noteq> CHR ''.'') (ip @ CHR ''.'' # fp) = ip"
    by (rule takeWhile_until(1) [OF d])
  have fpart: "dropWhile (\<lambda>c. c \<noteq> CHR ''.'') (ip @ CHR ''.'' # fp) = CHR ''.'' # fp"
    by (rule takeWhile_until(2) [OF d])
  show ?thesis
    apply (simp only: unsigned_float_def Let_def)
    apply (simp only: mant expo)
    apply (simp only: ipart fpart)
    using g x apply simp
    done
qed

lemma unsigned_float_exp:
  assumes e: "CHR ''e'' \<notin> set ip"
      and d: "CHR ''.'' \<notin> set ip"
      and g: "ip \<noteq> []" "list_all is_digit ip"
      and x: "exponent_of_string t = Some ev"
  shows "unsigned_float (ip @ CHR ''e'' # t)
           = Some (normalise (digit_values ip) (int (length ip) + ev))"
proof -
  have mant: "takeWhile (\<lambda>c. c \<noteq> CHR ''e'') (ip @ CHR ''e'' # t) = ip"
    by (rule takeWhile_until(1) [OF e])
  have expo: "dropWhile (\<lambda>c. c \<noteq> CHR ''e'') (ip @ CHR ''e'' # t) = CHR ''e'' # t"
    by (rule takeWhile_until(2) [OF e])
  have ipart: "takeWhile (\<lambda>c. c \<noteq> CHR ''.'') ip = ip"
    by (rule takeWhile_until(3) [OF d])
  have fpart: "dropWhile (\<lambda>c. c \<noteq> CHR ''.'') ip = []"
    by (rule takeWhile_until(4) [OF d])
  show ?thesis
    apply (simp only: unsigned_float_def Let_def)
    apply (simp only: mant expo)
    apply (simp only: ipart fpart)
    using g x apply simp
    done
qed

lemma normalise_plain:
  "ds \<noteq> [] \<Longrightarrow> hd ds \<noteq> 0 \<Longrightarrow> last ds \<noteq> 0 \<Longrightarrow> normalise (ds @ replicate k 0) p = (ds, p)"
  using leading_zeros_none [of ds "replicate k 0"]
  by (simp add: normalise_def strip_trailing_zeros_zeros)

lemma normalise_leading:
  "ds \<noteq> [] \<Longrightarrow> hd ds \<noteq> 0 \<Longrightarrow> last ds \<noteq> 0 \<Longrightarrow>
   normalise (replicate k 0 @ ds) p = (ds, p - int k)"
  using leading_zeros_some [of ds k "[]"]
  by (simp add: normalise_def strip_trailing_zeros_id)

lemma normalise_zero: "normalise (replicate k 0) p = ([0], 1)"
  by (simp add: normalise_def)

lemma digit_values_append [simp]: "digit_values (a @ b) = digit_values a @ digit_values b"
  by (simp add: digit_values_def)

lemma digit_values_zeros [simp]: "digit_values (replicate k CHR ''0'') = replicate k 0"
  by (simp add: digit_values_def)

lemma digit_values_zero_Cons [simp]: "digit_values (CHR ''0'' # s) = 0 # digit_values s"
  by (simp add: digit_values_def)

lemma digit_values_Nil [simp]: "digit_values [] = []"
  by (simp add: digit_values_def)

lemma digit_string_Nil [simp]: "(digit_string ds = []) = (ds = [])"
  by (simp add: digit_string_def)

lemma digit_string_append: "digit_string (a @ b) = digit_string a @ digit_string b"
  by (simp add: digit_string_def)

lemma digit_string_length [simp]: "length (digit_string ds) = length ds"
  by (simp add: digit_string_def)

lemma list_all_zeros [simp]: "list_all is_digit (replicate k CHR ''0'')"
  by (simp add: list_all_iff)

lemma zeros_exclude [simp]:
  "CHR ''e'' \<notin> set (replicate k CHR ''0'')" "CHR ''.'' \<notin> set (replicate k CHR ''0'')"
  "CHR '','' \<notin> set (replicate k CHR ''0'')"
  by auto

lemma unsigned_float_body:
  assumes sd: "shortest_digits ds" and z: "ds = [0] \<Longrightarrow> p = 1"
  shows "unsigned_float (float_body ds p) = Some (ds, p)"
proof -
  have ne: "ds \<noteq> []" and small: "list_all (\<lambda>d. d < 10) ds"
    and shape: "ds = [0] \<or> (hd ds \<noteq> 0 \<and> last ds \<noteq> 0)"
    using sd by (simp_all add: shortest_digits_def)
  note dsf = digit_string_facts [OF small]
  have hd_small: "hd ds < 10" using ne small by (cases ds) simp_all
  have tl_small: "list_all (\<lambda>d. d < 10) (tl ds)" using ne small by (cases ds) simp_all
  have split: "ds = hd ds # tl ds" using ne by simp
  consider (sci) "p \<le> - 4 \<or> 16 < p"
    | (small_frac) "\<not> (p \<le> - 4 \<or> 16 < p)" "p \<le> 0"
    | (whole) "\<not> (p \<le> - 4 \<or> 16 < p)" "0 < p" "int (length ds) \<le> p"
    | (mixed) "\<not> (p \<le> - 4 \<or> 16 < p)" "0 < p" "p < int (length ds)"
    by linarith
  then show ?thesis
  proof cases
    case sci
    then have nz: "hd ds \<noteq> 0" "last ds \<noteq> 0" using shape z by auto
    have norm: "normalise ds p = (ds, p)"
      using normalise_plain [OF ne nz, of 0 p] by simp
    have ex: "exponent_of_string (exponent_text (p - 1)) = Some (p - 1)"
      by (rule exponent_of_string_text)
    show ?thesis
    proof (cases "tl ds = []")
      case True
      then have one: "ds = [hd ds]" using split by simp
      have "unsigned_float ([digit_char (hd ds)] @ CHR ''e'' # exponent_text (p - 1))
          = Some (normalise (digit_values [digit_char (hd ds)]) (int (length [digit_char (hd ds)]) + (p - 1)))"
        by (rule unsigned_float_exp [OF _ _ _ _ ex])
           (simp_all add: digit_char_facts [OF hd_small] digit_char_facts_sym [OF hd_small])
      moreover have "digit_values [digit_char (hd ds)] = ds"
        using one digit_char_facts(7) [OF hd_small] by (simp add: digit_values_def)
      ultimately show ?thesis
        using sci True norm by (simp add: float_body_def)
    next
      case False
      have "unsigned_float ([digit_char (hd ds)] @ CHR ''.'' # digit_string (tl ds)
              @ CHR ''e'' # exponent_text (p - 1))
          = Some (normalise (digit_values ([digit_char (hd ds)] @ digit_string (tl ds)))
                    (int (length [digit_char (hd ds)]) + (p - 1)))"
        by (rule unsigned_float_dot_exp [OF _ _ _ _ _ ex])
           (simp_all add: digit_char_facts [OF hd_small] digit_char_facts_sym [OF hd_small]
              digit_string_facts [OF tl_small])
      moreover have "digit_values ([digit_char (hd ds)] @ digit_string (tl ds)) = ds"
        using split digit_char_facts(7) [OF hd_small] digit_string_facts(5) [OF tl_small]
        by (simp add: digit_values_def)
      ultimately show ?thesis
        using sci False norm by (simp add: float_body_def)
    qed
  next
    case small_frac
    then have nz: "hd ds \<noteq> 0" "last ds \<noteq> 0" using shape z by auto
    let ?k = "nat (- p)"
    have "unsigned_float (''0'' @ CHR ''.'' # (replicate ?k CHR ''0'' @ digit_string ds))
        = Some (normalise (digit_values (''0'' @ (replicate ?k CHR ''0'' @ digit_string ds)))
                  (int (length ''0'')))"
      by (rule unsigned_float_dot) (simp_all add: dsf)
    moreover have "digit_values (''0'' @ (replicate ?k CHR ''0'' @ digit_string ds))
        = replicate (Suc ?k) 0 @ ds"
      by (simp add: dsf)
    moreover have "normalise (replicate (Suc ?k) 0 @ ds) 1 = (ds, 1 - int (Suc ?k))"
      by (rule normalise_leading [OF ne nz])
    ultimately show ?thesis
      using small_frac by (simp add: float_body_def)
  next
    case whole
    let ?j = "nat p - length ds"
    have "unsigned_float ((digit_string ds @ replicate ?j CHR ''0'') @ CHR ''.'' # ''0'')
        = Some (normalise (digit_values ((digit_string ds @ replicate ?j CHR ''0'') @ ''0''))
                  (int (length (digit_string ds @ replicate ?j CHR ''0''))))"
      by (rule unsigned_float_dot) (simp_all add: dsf ne)
    moreover have all: "digit_values ((digit_string ds @ replicate ?j CHR ''0'') @ ''0'')
        = ds @ replicate (Suc ?j) 0"
      by (simp add: dsf replicate_append_same)
    moreover have "normalise (ds @ replicate (Suc ?j) 0)
           (int (length (digit_string ds @ replicate ?j CHR ''0''))) = (ds, p)"
    proof (cases "ds = [0]")
      case True
      then have "p = 1" by (rule z)
      moreover have "ds @ replicate (Suc ?j) 0 = replicate (Suc (Suc ?j)) 0"
        using True by (simp add: replicate_append_same)
      ultimately show ?thesis
        using True normalise_zero [of "Suc (Suc ?j)"] by simp
    next
      case False
      then have nz: "hd ds \<noteq> 0" "last ds \<noteq> 0" using shape by auto
      show ?thesis
        using normalise_plain [OF ne nz, of "Suc ?j"] whole by simp
    qed
    ultimately show ?thesis
      using whole by (simp add: float_body_def)
  next
    case mixed
    let ?q = "nat p"
    have long: "2 \<le> length ds" using mixed by linarith
    then have "ds \<noteq> [0]" by auto
    then have nz: "hd ds \<noteq> 0" "last ds \<noteq> 0" using shape by auto
    have parts: "list_all (\<lambda>d. d < 10) (take ?q ds)" "list_all (\<lambda>d. d < 10) (drop ?q ds)"
      using small by (auto simp: list_all_iff dest: in_set_takeD in_set_dropD)
    have lt: "?q < length ds" "0 < ?q" using mixed by linarith+
    have "unsigned_float (digit_string (take ?q ds) @ CHR ''.'' # digit_string (drop ?q ds))
        = Some (normalise (digit_values (digit_string (take ?q ds) @ digit_string (drop ?q ds)))
                  (int (length (digit_string (take ?q ds)))))"
      by (rule unsigned_float_dot)
         (use lt in \<open>simp_all add: digit_string_facts [OF parts(1)] digit_string_facts [OF parts(2)]\<close>)
    moreover have "digit_values (digit_string (take ?q ds) @ digit_string (drop ?q ds)) = ds"
      using dsf(5) by (simp add: digit_string_append [symmetric] del: digit_values_append)
    moreover have "normalise ds (int (length (digit_string (take ?q ds)))) = (ds, p)"
      using normalise_plain [OF ne nz, of 0] lt mixed by (simp add: min_def)
    ultimately show ?thesis
      using mixed by (simp add: float_body_def)
  qed
qed

lemma digit_string_exclude_minus:
  "list_all (\<lambda>d. d < 10) ds \<Longrightarrow> CHR ''-'' \<notin> set (digit_string ds)"
  by (induction ds) (auto simp: digit_string_def dest: digit_char_facts(4))

lemma float_body_first:
  assumes sd: "shortest_digits ds"
  shows "float_body ds p \<noteq> [] \<and> hd (float_body ds p) \<noteq> CHR ''-''"
proof -
  have ne: "ds \<noteq> []" and small: "list_all (\<lambda>d. d < 10) ds"
    using sd by (simp_all add: shortest_digits_def)
  obtain d rest where ds: "ds = d # rest" using ne by (cases ds) auto
  have d: "d < 10" using small ds by simp
  have first: "digit_char d \<noteq> CHR ''-''" by (rule digit_char_facts(4) [OF d])
  have "0 < p \<Longrightarrow> p < int (length ds) \<Longrightarrow> take (nat p) ds = d # take (nat p - 1) rest"
    by (cases "nat p") (simp_all add: ds)
  then show ?thesis
    using first by (auto simp: float_body_def ds digit_string_def)
qed

lemma float_of_string_repr:
  assumes "shortest_digits ds" and "ds = [0] \<Longrightarrow> p = 1"
  shows "float_of_string (float_repr neg ds p) = Some (PyFloat neg ds p)"
  using float_body_first [OF assms(1), of p] unsigned_float_body [OF assms]
  by (simp add: float_of_string_def float_repr_def)

lemma float_body_chars:
  assumes sd: "shortest_digits ds"
  shows "CHR '','' \<notin> set (float_body ds p)"
    and "CHR ''.'' \<in> set (float_body ds p) \<or> CHR ''e'' \<in> set (float_body ds p)"
proof -
  have ne: "ds \<noteq> []" and small: "list_all (\<lambda>d. d < 10) ds"
    using sd by (simp_all add: shortest_digits_def)
  have hd_small: "hd ds < 10" using ne small by (cases ds) simp_all
  have tl_small: "list_all (\<lambda>d. d < 10) (tl ds)" using ne small by (cases ds) simp_all
  have parts: "list_all (\<lambda>d. d < 10) (take q ds)" "list_all (\<lambda>d. d < 10) (drop q ds)" for q
    using small by (auto simp: list_all_iff dest: in_set_takeD in_set_dropD)
  show "CHR '','' \<notin> set (float_body ds p)"
    using digit_string_facts(4) [OF small] digit_string_facts(4) [OF tl_small]
      digit_string_facts(4) [OF parts(1)] digit_string_facts(4) [OF parts(2)]
      digit_char_facts(5) [OF hd_small] exponent_text_chars(1) [of "p - 1"]
    by (auto simp: float_body_def)
  show "CHR ''.'' \<in> set (float_body ds p) \<or> CHR ''e'' \<in> set (float_body ds p)"
    by (auto simp: float_body_def)
qed

lemma float_repr_chars:
  assumes sd: "shortest_digits ds"
  shows "CHR '','' \<notin> set (float_repr neg ds p)"
    and "CHR ''.'' \<in> set (float_repr neg ds p) \<or> CHR ''e'' \<in> set (float_repr neg ds p)"
  using float_body_chars [OF sd, of p] by (auto simp: float_repr_def)

lemma str_int_chars: "CHR ''.'' \<notin> set (str_int i)" "CHR ''e'' \<notin> set (str_int i)"
proof -
  have "CHR ''.'' \<notin> set (digits10 n) \<and> CHR ''e'' \<notin> set (digits10 n)" for n
    using digits_exclude [OF digits10_all_digits [of n]] by simp
  then show "CHR ''.'' \<notin> set (str_int i)" "CHR ''e'' \<notin> set (str_int i)"
    by (auto simp: str_int_def)
qed

lemma number_of_string_str_number:
  "finite_number x \<Longrightarrow> number_of_string (str_number x) = Some x"
proof (cases x)
  case (PyInt i)
  then show ?thesis
    by (simp add: number_of_string_def str_int_chars int_of_string_str_int)
next
  case (PyFloat neg ds p)
  assume "finite_number x"
  then have sd: "shortest_digits ds" and z: "ds = [0] \<Longrightarrow> p = 1"
    using PyFloat by (simp_all split: if_splits)
  show ?thesis
    using float_repr_chars(2) [OF sd, of neg p] float_of_string_repr [OF sd z, of neg]
    by (simp add: PyFloat number_of_string_def)
qed

lemma comma_not_in_str_number: "finite_number x \<Longrightarrow> CHR '','' \<notin> set (str_number x)"
  by (cases x) (simp_all add: comma_not_in_str_int float_repr_chars(1))

lemma split_number_texts:
  "finite_number x \<Longrightarrow> finite_number y \<Longrightarrow>
   split_on CHR '','' (str_number x @ '','' @ str_number y) = [str_number x, str_number y]"
  by (simp add: split_on_first split_on_absent comma_not_in_str_number)

lemma split_coordinate_text:
  "finite_number x \<Longrightarrow> finite_number y \<Longrightarrow>
   split_on CHR '','' (coordinate_text x y) = [str_number x, str_number y]"
  using split_number_texts [of x y] by (simp add: coordinate_text_def)

lemma sample_numbers:
  "finite_number sample_x" "finite_number sample_y" "finite_number other_x" "finite_number other_y"
  by (simp_all add: sample_x_def sample_y_def other_x_def other_y_def shortest_digits_def)

lemma replicate_two: "replicate 2 c = [c, c]"
  by (simp add: numeral_2_eq_2)

lemma sample_number_texts:
  "str_number sample_x = ''640.0''" "str_number sample_y = ''360.5''"
  "str_number other_x = ''700.0''" "str_number other_y = ''-12.25''"
  by (simp_all add: sample_x_def sample_y_def other_x_def other_y_def float_repr_def
      float_body_def digit_string_def replicate_two)

lemma output_file_eq_iff:
  "(output_file c t1 = output_file c t2) = (py_int (t1 * 1000) = py_int (t2 * 1000))"
  by (auto simp: output_file_def path_join_relative dest: str_int_inj)

lemma example_fields:
  "message_field 0 ''role'' (example x y p) = Some (JString ''user'')"
  "user_part 0 ''type'' (example x y p) = Some (JString ''text'')"
  "user_part 0 ''text'' (example x y p) = Some (JString prompt_text)"
  "user_part 1 ''type'' (example x y p) = Some (JString ''image_url'')"
  "image_reference (example x y p) = Some (JString p)"
  "message_field 1 ''role'' (example x y p) = Some (JString ''assistant'')"
  "message_field 1 ''content'' (example x y p) = Some (JString (coordinate_text x y))"
  by (simp_all add: example_def message_field_def user_part_def image_reference_def)

lemma click_time_ms:
  "py_int (click_time * 1000) = 1715936587123"
  "py_int (click_time_same_ms * 1000) = 1715936587123"
  "py_int (click_time_next_ms * 1000) = 1715936587124"
  by (simp_all add: py_int_def click_time_def click_time_same_ms_def click_time_next_ms_def)

lemma sample_save_env_simps [simp]:
  "open_failure (sample_save_env t) = None" "time_time (sample_save_env t) = t"
  by (simp_all add: sample_save_env_def)

lemma sample_output_file:
  "output_file (self sample_system) click_time = ''data/text/example_1715936587123.json''"
  by (simp add: output_file_def click_time_ms)
     (simp add: sample_system_def initial_system_def init_controller_def
        path_join_def str_int_def digits10.simps)

lemma str_int_eval:
  "str_int 1111 = ''1111''" "str_int (- 22) = ''-22''"
  "str_int 10 = ''10''" "str_int 20 = ''20''" "str_int 30 = ''30''" "str_int 40 = ''40''"
  by (simp_all add: str_int_def digits10.simps)

subsection \<open>The records on disk\<close>

text \<open>
  C2 (the code at a left press whose rename succeeds and whose record write in the
  \<^verbatim>\<open>try\<close> body raises \<^verbatim>\<open>OSError\<close>). The comments in the handler say that the record
  gets the new screenshot path after the rename and the generic path if renaming fails.
  Here the rename has succeeded, yet \<^verbatim>\<open>except OSError\<close> catches the failed write,
  prints the rename diagnostic and writes a record whose image reference is the generic
  path. No file is at that path any more; the screenshot is at the timestamped path, and
  no record refers to it.
\<close>

theorem on_click_failed_write_records_generic_path:
  "os_path_exists (generic_screenshot_path (self sample_system)) sample_system
   \<and> rename_failure failed_write_click_env = None
   \<and> fst (on_click failed_write_click_env sample_x sample_y Button_left True sample_system) = None
   \<and> stdout (snd (on_click failed_write_click_env sample_x sample_y Button_left True sample_system))
       = [''Error renaming screenshot: too many open files'']
   \<and> files (snd (on_click failed_write_click_env sample_x sample_y Button_left True sample_system))
        ''data/images/screenshot.jpg'' = None
   \<and> files (snd (on_click failed_write_click_env sample_x sample_y Button_left True sample_system))
        ''data/images/screenshot_20240517_090307_123.jpg'' = Some ''JPEG''
   \<and> files (snd (on_click failed_write_click_env sample_x sample_y Button_left True sample_system))
        ''data/text/example_1715936587123.json'' = None
   \<and> files (snd (on_click failed_write_click_env sample_x sample_y Button_left True sample_system))
        ''data/text/example_1715936587124.json''
       = Some (json_dumps (example sample_x sample_y ''data/images/screenshot.jpg''))
   \<and> image_reference (example sample_x sample_y ''data/images/screenshot.jpg'')
       = Some (JString ''data/images/screenshot.jpg'')"
proof -
  have env: "now failed_write_click_env = sample_datetime"
    "rename_failure failed_write_click_env = None"
    "open_failure (first_save failed_write_click_env) = Some ''too many open files''"
    "handler_save failed_write_click_env = sample_save_env click_time_next_ms"
    by (simp_all add: failed_write_click_env_def)
  have first: "output_file (self sample_system) (time_time (first_save failed_write_click_env))
      = ''data/text/example_1715936587123.json''"
    using sample_output_file by (simp add: failed_write_click_env_def)
  have second: "output_file (self sample_system) click_time_next_ms
      = ''data/text/example_1715936587124.json''"
    by (simp add: output_file_def click_time_ms)
       (simp add: sample_system_def initial_system_def init_controller_def
        path_join_def str_int_def digits10.simps)
  have none: "files sample_system ''data/text/example_1715936587123.json'' = None"
    by (simp add: sample_system_def initial_system_def)
  have self: "self (sample_system\<lparr>self := (self sample_system)\<lparr>clicked := True\<rparr>\<rparr>)
      = (self sample_system)\<lparr>clicked := True\<rparr>"
    by simp
  show ?thesis
    using sample_exists sample_files none
    by (simp add: on_click_def on_click_try_def on_click_except_def os_rename_def
        save_click_data_def write_file_def print_line_def os_path_exists_def Let_def
        env first second sample_new_path sample_generic_path example_fields)
qed

text \<open>
  C8. A call of \<^verbatim>\<open>save_click_data\<close> with finite coordinates whose write succeeds
  stores, at the output path, a text that parses as JSON to the example document: a user
  message with the fixed prompt text and an image_url entry holding the screenshot path,
  and an assistant message whose content is \<^verbatim>\<open>"<x>,<y>"\<close>. That content splits at the
  comma into exactly two tokens, and the tokens read as numbers are the coordinates
  passed to the call.
\<close>

theorem save_click_data_round_trip:
  "finite_number x \<Longrightarrow> finite_number y \<Longrightarrow> open_failure env = None \<Longrightarrow>
     save_click_data env x y (Some p) s
       = (None, s\<lparr>files := (files s)(output_file (self s) (time_time env)
                                   \<mapsto> json_dumps (example x y p))\<rparr>)
   \<and> json_loads (json_dumps (example x y p)) = Some (example x y p)
   \<and> message_field 0 ''role'' (example x y p) = Some (JString ''user'')
   \<and> user_part 0 ''type'' (example x y p) = Some (JString ''text'')
   \<and> user_part 0 ''text'' (example x y p) = Some (JString
        ''Where to click? Answer with coordinates only (e.g., 1111.1111,2222.2222)'')
   \<and> user_part 1 ''type'' (example x y p) = Some (JString ''image_url'')
   \<and> image_reference (example x y p) = Some (JString p)
   \<and> message_field 1 ''role'' (example x y p) = Some (JString ''assistant'')
   \<and> message_field 1 ''content'' (example x y p)
       = Some (JString (str_number x @ '','' @ str_number y))
   \<and> split_on CHR '','' (str_number x @ '','' @ str_number y) = [str_number x, str_number y]
   \<and> map number_of_string (split_on CHR '','' (str_number x @ '','' @ str_number y))
       = [Some x, Some y]"
  using split_coordinate_text [of x y] example_fields [of x y p]
  by (simp add: save_click_data_def write_file_def json_loads_dumps
      number_of_string_str_number prompt_text_def coordinate_text_def)

theorem save_click_data_round_trip_witness:
  "finite_number sample_x \<and> finite_number other_y
   \<and> open_failure (sample_save_env click_time) = None
   \<and> files (snd (save_click_data (sample_save_env click_time) sample_x other_y
          (Some ''data/images/screenshot.jpg'') sample_system))
        ''data/text/example_1715936587123.json''
       = Some (json_dumps (example sample_x other_y ''data/images/screenshot.jpg''))
   \<and> json_loads (json_dumps (example sample_x other_y ''data/images/screenshot.jpg''))
       = Some (example sample_x other_y ''data/images/screenshot.jpg'')
   \<and> message_field 1 ''content'' (example sample_x other_y ''data/images/screenshot.jpg'')
       = Some (JString ''640.0,-12.25'')
   \<and> split_on CHR '','' ''640.0,-12.25'' = [''640.0'', ''-12.25'']
   \<and> map number_of_string (split_on CHR '','' ''640.0,-12.25'') = [Some sample_x, Some other_y]"
proof -
  have h: "open_failure (sample_save_env click_time) = None"
    by simp
  show ?thesis
    using h sample_numbers(1,4)
      save_click_data_round_trip [OF sample_numbers(1,4) h, of "''data/images/screenshot.jpg''"
        sample_system]
    by (simp add: sample_output_file sample_number_texts)
qed

text \<open>
  C9, as the code has it. The record file is \<^verbatim>\<open>example_<ms>.json\<close> in the output
  directory, with \<open>ms\<close> the clock reading in milliseconds truncated to an integer; two
  clock readings give the same file name exactly when their millisecond values are
  equal; and a successful call writes its one record to that file and changes nothing
  else.
\<close>

theorem output_file_named_by_millisecond:
  "output_file c t = path_join (output_dir c) (''example_'' @ str_int (py_int (t * 1000)) @ ''.json'')
   \<and> (output_file c t1 = output_file c t2) = (py_int (t1 * 1000) = py_int (t2 * 1000))
   \<and> (open_failure env = None \<longrightarrow>
        save_click_data env x y (Some p) s
          = (None, s\<lparr>files := (files s)(output_file (self s) (time_time env)
                                      \<mapsto> json_dumps (example x y p))\<rparr>))"
  by (simp add: output_file_eq_iff save_click_data_def write_file_def) (simp add: output_file_def)

theorem output_file_named_by_millisecond_witness:
  "open_failure (sample_save_env click_time) = None
   \<and> py_int (click_time * 1000) \<noteq> py_int (click_time_next_ms * 1000)
   \<and> output_file (self sample_system) click_time
       \<noteq> output_file (self sample_system) click_time_next_ms
   \<and> save_click_data (sample_save_env click_time) sample_x sample_y
          (Some ''data/images/screenshot.jpg'') sample_system
       = (None, sample_system\<lparr>files := (files sample_system)
            (output_file (self sample_system) (time_time (sample_save_env click_time))
               \<mapsto> json_dumps (example sample_x sample_y ''data/images/screenshot.jpg''))\<rparr>)"
proof -
  have h: "open_failure (sample_save_env click_time) = None"
    by simp
  have ms: "py_int (click_time * 1000) \<noteq> py_int (click_time_next_ms * 1000)"
    by (simp add: click_time_ms)
  note named = output_file_named_by_millisecond
      [of "self sample_system" click_time click_time click_time_next_ms
          "sample_save_env click_time" sample_x sample_y "''data/images/screenshot.jpg''" sample_system]
  from named ms have "output_file (self sample_system) click_time
       \<noteq> output_file (self sample_system) click_time_next_ms"
    by blast
  moreover from named h have "save_click_data (sample_save_env click_time) sample_x sample_y
          (Some ''data/images/screenshot.jpg'') sample_system
       = (None, sample_system\<lparr>files := (files sample_system)
            (output_file (self sample_system) (time_time (sample_save_env click_time))
               \<mapsto> json_dumps (example sample_x sample_y ''data/images/screenshot.jpg''))\<rparr>)"
    by blast
  ultimately show ?thesis using h ms by blast
qed

text \<open>
  C9, as the claim states it, fails: two left presses handled within the same
  millisecond (each rename failing, each record write succeeding) write two different
  records to the same file name, and after the second press the file holds the second
  record only.
\<close>

theorem same_millisecond_clicks_overwrite:
  "fst (on_click (busy_click_env click_time) sample_x sample_y Button_left True sample_system) = None
   \<and> files (snd (on_click (busy_click_env click_time) sample_x sample_y Button_left True sample_system))
        ''data/text/example_1715936587123.json''
       = Some (json_dumps (example sample_x sample_y ''data/images/screenshot.jpg''))
   \<and> fst (on_click (busy_click_env click_time_same_ms) other_x other_y Button_left True
          (snd (on_click (busy_click_env click_time) sample_x sample_y Button_left True sample_system))) = None
   \<and> files (snd (on_click (busy_click_env click_time_same_ms) other_x other_y Button_left True
          (snd (on_click (busy_click_env click_time) sample_x sample_y Button_left True sample_system))))
        ''data/text/example_1715936587123.json''
       = Some (json_dumps (example other_x other_y ''data/images/screenshot.jpg''))
   \<and> json_dumps (example sample_x sample_y ''data/images/screenshot.jpg'')
       \<noteq> json_dumps (example other_x other_y ''data/images/screenshot.jpg'')"
proof -
  have same: "output_file c click_time_same_ms = output_file c click_time" for c
    by (simp add: output_file_eq_iff click_time_ms)
  have differ: "example sample_x sample_y ''data/images/screenshot.jpg''
      \<noteq> example other_x other_y ''data/images/screenshot.jpg''"
    by (simp add: example_def coordinate_text_def sample_number_texts)
  have texts: "json_dumps (example sample_x sample_y ''data/images/screenshot.jpg'')
       \<noteq> json_dumps (example other_x other_y ''data/images/screenshot.jpg'')"
    using differ json_dumps_inj by blast
  have paths: "generic_screenshot_path (init_controller ''data/text'' ''data/images'' i m)
      = ''data/images/screenshot.jpg''" for i m
    by (simp add: generic_screenshot_path_def init_controller_def path_join_def)
  have out: "output_file (init_controller ''data/text'' ''data/images'' i m) click_time
      = ''data/text/example_1715936587123.json''" for i m
    using sample_output_file
    by (simp add: output_file_def sample_system_def initial_system_def init_controller_def)
  show ?thesis
    using texts
    by (simp add: on_click_def on_click_try_def on_click_except_def os_rename_def
        save_click_data_def write_file_def print_line_def os_path_exists_def Let_def
        busy_click_env_def sample_system_def initial_system_def paths out same)
qed

subsection \<open>Further properties of the click handler and the serialiser\<close>

text \<open>
  X1. When the rename succeeds but the write of the record in the \<^verbatim>\<open>try\<close> body raises
  \<^verbatim>\<open>OSError\<close>, the \<^verbatim>\<open>except OSError\<close> clause handles that error as well: it prints the
  rename diagnostic and, when its own write succeeds, stores a record that refers to the
  generic path, where no file is left.
\<close>

theorem on_click_write_failure_takes_the_rename_handler:
  assumes "os_path_exists (generic_screenshot_path (self s)) s"
      and "rename_failure env = None"
      and "open_failure (first_save env) = Some msg"
      and "open_failure (handler_save env) = None"
  shows "fst (on_click env x y Button_left True s) = None
       \<and> stdout (snd (on_click env x y Button_left True s))
           = stdout s @ [''Error renaming screenshot: '' @ msg]
       \<and> files (snd (on_click env x y Button_left True s)) (generic_screenshot_path (self s)) = None
       \<and> files (snd (on_click env x y Button_left True s))
            (output_file (self s) (time_time (handler_save env)))
           = Some (json_dumps (example x y (generic_screenshot_path (self s))))"
  using assms
  by (auto simp: on_click_def on_click_try_def on_click_except_def os_rename_def
      save_click_data_def write_file_def print_line_def os_path_exists_def Let_def
      split: option.splits)

theorem on_click_write_failure_takes_the_rename_handler_witness:
  "os_path_exists (generic_screenshot_path (self sample_system)) sample_system
   \<and> rename_failure failed_write_click_env = None
   \<and> open_failure (first_save failed_write_click_env) = Some ''too many open files''
   \<and> open_failure (handler_save failed_write_click_env) = None
   \<and> fst (on_click failed_write_click_env sample_x sample_y Button_left True sample_system) = None
   \<and> stdout (snd (on_click failed_write_click_env sample_x sample_y Button_left True sample_system))
       = [''Error renaming screenshot: too many open files'']
   \<and> files (snd (on_click failed_write_click_env sample_x sample_y Button_left True sample_system))
        ''data/images/screenshot.jpg'' = None
   \<and> files (snd (on_click failed_write_click_env sample_x sample_y Button_left True sample_system))
        ''data/text/example_1715936587124.json''
       = Some (json_dumps (example sample_x sample_y ''data/images/screenshot.jpg''))"
proof -
  have h: "rename_failure failed_write_click_env = None"
    "open_failure (first_save failed_write_click_env) = Some ''too many open files''"
    "open_failure (handler_save failed_write_click_env) = None"
    by (simp_all add: failed_write_click_env_def)
  have o: "output_file (self sample_system) (time_time (handler_save failed_write_click_env))
      = ''data/text/example_1715936587124.json''"
    by (simp add: failed_write_click_env_def output_file_def click_time_ms)
       (simp add: sample_system_def initial_system_def init_controller_def
        path_join_def str_int_def digits10.simps)
  show ?thesis
    using sample_exists h sample_files
      on_click_write_failure_takes_the_rename_handler [OF sample_exists h, of sample_x sample_y]
    by (simp add: o sample_generic_path)
qed

text \<open>
  X2. Every left press that finds no transient screenshot sets the click flag, raises
  \<^verbatim>\<open>TypeError\<close> and changes nothing else.
\<close>

theorem on_click_without_screenshot_always_raises:
  "\<not> os_path_exists (generic_screenshot_path (self s)) s \<Longrightarrow>
   on_click env x y Button_left True s
     = (Some (TypeError missing_argument_message), s\<lparr>self := (self s)\<lparr>clicked := True\<rparr>\<rparr>)"
  by (rule on_click_without_screenshot)

theorem on_click_without_screenshot_always_raises_witness:
  "\<not> os_path_exists (generic_screenshot_path (self (initial_system 1 Map.empty)))
       (initial_system 1 Map.empty)
   \<and> on_click (sample_click_env None) other_x other_y Button_left True (initial_system 1 Map.empty)
     = (Some (TypeError missing_argument_message),
        (initial_system 1 Map.empty)\<lparr>self := (self (initial_system 1 Map.empty))\<lparr>clicked := True\<rparr>\<rparr>)"
proof -
  have h: "\<not> os_path_exists (generic_screenshot_path (self (initial_system 1 Map.empty)))
       (initial_system 1 Map.empty)"
    by (simp add: os_path_exists_def initial_system_def)
  show ?thesis
    using h on_click_without_screenshot_always_raises [OF h, of "sample_click_env None" other_x other_y]
    by simp
qed

lemma on_click_moves_screenshot:
  assumes "os_path_exists (generic_screenshot_path (self s)) s"
      and "rename_failure env = None"
  shows "files (snd (on_click env x y Button_left True s)) (generic_screenshot_path (self s)) = None"
  using assms
  by (auto simp: on_click_def on_click_try_def on_click_except_def os_rename_def
      save_click_data_def write_file_def print_line_def os_path_exists_def Let_def
      split: option.splits)

text \<open>
  X3. After a left press that renamed the transient screenshot and wrote its record,
  the next left press, with no capture in between, finds no transient screenshot: it
  raises \<^verbatim>\<open>TypeError\<close> and writes nothing.
\<close>

theorem second_click_without_capture_raises:
  assumes "os_path_exists (generic_screenshot_path (self s)) s"
      and "rename_failure env = None"
      and "open_failure (first_save env) = None"
  shows "fst (on_click env' x' y' Button_left True (snd (on_click env x y Button_left True s)))
           = Some (TypeError missing_argument_message)
       \<and> files (snd (on_click env' x' y' Button_left True (snd (on_click env x y Button_left True s))))
           = files (snd (on_click env x y Button_left True s))"
proof -
  let ?s1 = "snd (on_click env x y Button_left True s)"
  have self1: "self ?s1 = (self s)\<lparr>clicked := True\<rparr>"
    using assms
    by (auto simp: on_click_def on_click_try_def os_rename_def save_click_data_def
        write_file_def os_path_exists_def Let_def split: option.splits)
  have "files ?s1 (generic_screenshot_path (self s)) = None"
    using assms(1,2) by (rule on_click_moves_screenshot)
  then have "\<not> os_path_exists (generic_screenshot_path (self ?s1)) ?s1"
    by (simp add: self1 os_path_exists_def)
  then show ?thesis
    by (simp add: on_click_without_screenshot)
qed

theorem second_click_without_capture_raises_witness:
  "os_path_exists (generic_screenshot_path (self sample_system)) sample_system
   \<and> rename_failure (sample_click_env None) = None
   \<and> open_failure (first_save (sample_click_env None)) = None
   \<and> fst (on_click (sample_click_env None) other_x other_y Button_left True
          (snd (on_click (sample_click_env None) sample_x sample_y Button_left True sample_system)))
       = Some (TypeError missing_argument_message)
   \<and> files (snd (on_click (sample_click_env None) other_x other_y Button_left True
          (snd (on_click (sample_click_env None) sample_x sample_y Button_left True sample_system))))
       = files (snd (on_click (sample_click_env None) sample_x sample_y Button_left True sample_system))"
proof -
  have h: "rename_failure (sample_click_env None) = None"
    "open_failure (first_save (sample_click_env None)) = None"
    by (simp_all add: sample_click_env_def)
  show ?thesis
    using sample_exists h
      second_click_without_capture_raises [OF sample_exists h, of "sample_click_env None" other_x other_y sample_x sample_y]
    by simp
qed

text \<open>
  X4. Parsing inverts \<^verbatim>\<open>json.dump(obj, f, indent=2)\<close> on every document of strings,
  arrays and objects.
\<close>

theorem json_round_trip: "json_loads (json_dumps v) = Some v"
  by (rule json_loads_dumps)

text \<open>
  X5. A left press that finds the transient screenshot and whose rename succeeds: after
  the handler no file is at the generic path and the file that was there is at the
  timestamped path, whatever the record write does; when the write of the record in the
  \<^verbatim>\<open>try\<close> body does not fail, the handler returns without an exception and the record
  file holds the serialised example whose image reference is the timestamped path.
\<close>

theorem on_click_renames_and_records:
  assumes "os_path_exists (generic_screenshot_path (self s)) s"
      and "rename_failure env = None"
  shows "files (snd (on_click env x y Button_left True s)) (generic_screenshot_path (self s)) = None
       \<and> files (snd (on_click env x y Button_left True s)) (new_screenshot_path (self s) (now env))
           = files s (generic_screenshot_path (self s))
       \<and> files s (generic_screenshot_path (self s)) \<noteq> None
       \<and> (open_failure (first_save env) = None \<longrightarrow>
            fst (on_click env x y Button_left True s) = None
          \<and> files (snd (on_click env x y Button_left True s))
               (output_file (self s) (time_time (first_save env)))
             = Some (json_dumps (example x y (new_screenshot_path (self s) (now env)))))"
  using assms
  by (auto simp: on_click_def on_click_try_def on_click_except_def os_rename_def
      save_click_data_def write_file_def print_line_def os_path_exists_def Let_def
      split: option.splits)

theorem on_click_renames_and_records_witness:
  "os_path_exists (generic_screenshot_path (self sample_system)) sample_system
   \<and> rename_failure (sample_click_env None) = None
   \<and> open_failure (first_save (sample_click_env None)) = None
   \<and> files (snd (on_click (sample_click_env None) sample_x sample_y Button_left True sample_system))
        ''data/images/screenshot.jpg'' = None
   \<and> files (snd (on_click (sample_click_env None) sample_x sample_y Button_left True sample_system))
        ''data/images/screenshot_20240517_090307_123.jpg'' = Some ''JPEG''
   \<and> fst (on_click (sample_click_env None) sample_x sample_y Button_left True sample_system) = None
   \<and> files (snd (on_click (sample_click_env None) sample_x sample_y Button_left True sample_system))
        ''data/text/example_1715936587123.json''
       = Some (json_dumps (example sample_x sample_y ''data/images/screenshot_20240517_090307_123.jpg''))"
proof -
  have h2: "rename_failure (sample_click_env None) = None"
    by (simp add: sample_click_env_def)
  have h3: "open_failure (first_save (sample_click_env None)) = None"
    by (simp add: sample_click_env_def)
  have n: "now (sample_click_env None) = sample_datetime"
    by (simp add: sample_click_env_def)
  have o: "output_file (self sample_system) (time_time (first_save (sample_click_env None)))
      = ''data/text/example_1715936587123.json''"
    by (simp add: sample_click_env_def sample_system_def initial_system_def init_controller_def
        output_file_def path_join_def str_int_def py_int_def digits10.simps)
  show ?thesis
    using sample_exists h2 h3 sample_files
      on_click_renames_and_records [OF sample_exists h2, of sample_x sample_y]
    by (simp add: n o sample_new_path sample_generic_path)
qed

text \<open>
  X6. When the monitor exists, the grab delivers an image and the JPEG is saved,
  \<^verbatim>\<open>take_screenshot\<close> returns the generic screenshot path and the file at that path
  holds the saved bytes; nothing else changes.
\<close>

theorem take_screenshot_success:
  assumes "list_subscript (monitors env) (monitor_id (self s)) = Inr mon"
      and "grab env mon = Inr img"
      and "save_jpeg env img (width img div 2) (height img div 2) = Inr bytes"
  shows "take_screenshot env s
           = (Some (generic_screenshot_path (self s)),
              s\<lparr>files := (files s)(generic_screenshot_path (self s) \<mapsto> bytes)\<rparr>)"
  using assms
  by (simp add: take_screenshot_def take_screenshot_try_def generic_screenshot_path_def Let_def)

theorem take_screenshot_success_witness:
  "list_subscript (monitors sample_capture_env) (monitor_id (self sample_system))
     = Inr \<lparr>mon_left = 1440, mon_top = 0, mon_width = 1440, mon_height = 900\<rparr>
   \<and> grab sample_capture_env \<lparr>mon_left = 1440, mon_top = 0, mon_width = 1440, mon_height = 900\<rparr>
     = Inr \<lparr>width = 1440, height = 900, rgb = ''RGB''\<rparr>
   \<and> save_jpeg sample_capture_env \<lparr>width = 1440, height = 900, rgb = ''RGB''\<rparr> 720 450
     = Inr ''JPEG''
   \<and> take_screenshot sample_capture_env (sample_system\<lparr>files := Map.empty\<rparr>)
     = (Some ''data/images/screenshot.jpg'',
        sample_system\<lparr>files := [''data/images/screenshot.jpg'' \<mapsto> ''JPEG'']\<rparr>)"
proof -
  have m: "list_subscript (monitors sample_capture_env)
        (monitor_id (self (sample_system\<lparr>files := Map.empty\<rparr>)))
     = Inr \<lparr>mon_left = 1440, mon_top = 0, mon_width = 1440, mon_height = 900\<rparr>"
    by (simp add: sample_capture_env_def list_subscript_def sample_system_def initial_system_def
        init_controller_def)
  have g: "grab sample_capture_env \<lparr>mon_left = 1440, mon_top = 0, mon_width = 1440, mon_height = 900\<rparr>
     = Inr \<lparr>width = 1440, height = 900, rgb = ''RGB''\<rparr>"
    by (simp add: sample_capture_env_def)
  have j: "save_jpeg sample_capture_env \<lparr>width = 1440, height = 900, rgb = ''RGB''\<rparr>
       (width \<lparr>width = 1440, height = 900, rgb = ''RGB''\<rparr> div 2)
       (height \<lparr>width = 1440, height = 900, rgb = ''RGB''\<rparr> div 2) = Inr ''JPEG''"
    by (simp add: sample_capture_env_def)
  show ?thesis
    using m g j take_screenshot_success [OF m g j] sample_generic_path
    by simp
qed

end
